theory Spec2Isabelle
  imports Main
begin

section \<open>Reference tables of internal/models/order.go\<close>

definition OrderStatusPlaced :: string where "OrderStatusPlaced = ''Order Placed''"
definition OrderStatusPreparing :: string where "OrderStatusPreparing = ''Preparing''"
definition OrderStatusCooking :: string where "OrderStatusCooking = ''Cooking''"
definition OrderStatusQualityCheck :: string where "OrderStatusQualityCheck = ''Quality Check''"
definition OrderStatusReady :: string where "OrderStatusReady = ''Ready''"

definition OrderStatuses :: "string list" where
  "OrderStatuses =
     [OrderStatusPlaced, OrderStatusPreparing, OrderStatusCooking,
      OrderStatusQualityCheck, OrderStatusReady]"

definition PizzaTypes :: "string list" where
  "PizzaTypes =
     [''Margherita'', ''Pepperoni'', ''Vegetarian'', ''Hawaiian'', ''BBQ Chicken'',
      ''Meat Lovers'', ''Buffalo Chicken'', ''Supreme'', ''Truffle Mushroom'',
      ''Four Cheese'', ''Vegan Pizza'', ''Vegan Meat Lovers'', ''Vegan Garden'',
      ''Make Your Own'', ''Garlic'']"

definition PizzaCrust :: "string list" where
  "PizzaCrust = [''Thin'', ''Regular'', ''Deep Dish'', ''Cheesy Crust'', ''Vegan Cheesy Crust'']"

definition PizzaSizes :: "string list" where
  "PizzaSizes = [''Small'', ''Medium'', ''Large'', ''X-Large'', ''Family'']"

text \<open>
  \<open>PizzaDefaultToppings\<close> is a Go \<open>map[string][]string\<close>. The literal is kept as the list
  of its entries; \<open>default_toppings\<close> is the Go index expression
  \<open>PizzaDefaultToppings[k]\<close>, which yields the nil slice for a key that is absent.
\<close>

definition PizzaDefaultToppings_entries :: "(string \<times> string list) list" where
  "PizzaDefaultToppings_entries =
     [(''Margherita'', [''Tomato Sauce'', ''Mozzarella'', ''Tomatoes'', ''Basil'']),
      (''Pepperoni'', [''Tomato Sauce'', ''Mozzarella'', ''Pepperoni'']),
      (''Vegetarian'', [''Tomato Sauce'', ''Mozzarella'', ''Mushroom'', ''Capsicum'',
         ''Red Onion'', ''Olives'', ''Zucchini'']),
      (''Hawaiian'', [''Tomato Sauce'', ''Mozzarella'', ''Ham'', ''Pineapple'']),
      (''BBQ Chicken'', [''BBQ Sauce'', ''Mozzarella'', ''Chicken'', ''Red Onion'',
         ''Capsicum'', ''Bacon'']),
      (''Meat Lovers'', [''Tomato Sauce'', ''Mozzarella'', ''Pepperoni'', ''Sausage'',
         ''Bacon'', ''Ham'', ''Mince'']),
      (''Buffalo Chicken'', [''Buffalo Sauce'', ''Mozzarella'', ''Chicken'', ''Red Onion'',
         ''Jalapenos'']),
      (''Supreme'', [''Tomato Sauce'', ''Mozzarella'', ''Pepperoni'', ''Sausage'',
         ''Mushroom'', ''Capsicum'', ''Red Onion'', ''Olives'']),
      (''Truffle Mushroom'', [''Truffle Oil'', ''Mozzarella'', ''Mushroom'', ''Garlic Oil'',
         ''Rocket'']),
      (''Four Cheese'', [''Tomato Sauce'', ''Mozzarella'', ''Parmesan'', ''Gorgonzola'',
         ''Ricotta'']),
      (''Vegan Pizza'', [''Tomato Sauce'', ''Vegan Cheese'', ''White Onion'', ''Basil'',
         ''Capsicum'', ''Garlic Slices'', ''Corn'', ''Zucchini'']),
      (''Vegan Meat Lovers'', [''BBQ Sauce'', ''Vegan Cheese'', ''White Onion'',
         ''Vegan Ham'', ''Vegan Mince'', ''Vegan Chicken'', ''Vegan Bacon'',
         ''Vegan Pepperoni'']),
      (''Vegan Garden'', [''Pesto'', ''Vegan Cheese'', ''Red Onion'', ''Mushroom'',
         ''Pumpkin'', ''Capsicum'', ''Zucchini'', ''Spinach'', ''Corn'', ''Basil'',
         ''Rocket'']),
      (''Garlic'', [''Garlic'', ''Mozzarella'', ''Garlic Oil'']),
      (''Make Your Own'', [])]"

definition PizzaDefaultToppings :: "string \<rightharpoonup> string list" where
  "PizzaDefaultToppings = map_of PizzaDefaultToppings_entries"

definition default_toppings :: "string \<Rightarrow> string list" where
  "default_toppings k = (case PizzaDefaultToppings k of None \<Rightarrow> [] | Some ts \<Rightarrow> ts)"

section \<open>The structs of internal/models/order.go\<close>

text \<open>
  One record per struct, one field per struct field. Field names carry a prefix for the
  struct they belong to, since all five structs have a field \<open>ID\<close>. \<open>OrderItem\<close> is
  declared with exactly the eight fields below. \<open>CreatedAt\<close> is a point in time,
  kept as a number, with \<open>0\<close> for Go's zero \<open>time.Time\<close>.
\<close>

record OrderItemTopping =
  tp_ID :: string
  tp_OrderItemID :: string
  tp_Topping :: string
  tp_IsExtra :: bool

record OrderItemDietaryRequirement =
  dr_ID :: string
  dr_OrderItemID :: string
  dr_DietaryRequirement :: string

record OrderItemAllergy =
  al_ID :: string
  al_OrderItemID :: string
  al_Allergy :: string

record OrderItem =
  oi_ID :: string
  oi_OrderID :: string
  oi_Size :: string
  oi_Pizza :: string
  oi_Instructions :: string
  oi_DietaryRequirement :: "OrderItemDietaryRequirement list"
  oi_Toppings :: "OrderItemTopping list"
  oi_Allergies :: "OrderItemAllergy list"

record Order =
  o_ID :: string
  o_Status :: string
  o_CustomerName :: string
  o_Phone :: string
  o_Address :: string
  o_Items :: "OrderItem list"
  o_CreatedAt :: nat

section \<open>The submission handler of cmd/customer.go\<close>

record OrderRequest =
  rq_Name :: string
  rq_Phone :: string
  rq_Address :: string
  rq_Sizes :: "string list"
  rq_PizzaTypes :: "string list"
  rq_Crusts :: "string list"
  rq_Instructions :: "string list"
  rq_Toppings :: "string list"
  rq_DietaryRequirements :: "string list"
  rq_Allergies :: "string list"

text \<open>\<open>strings.SplitN(t, ":", 2)\<close>: the whole string when it has no colon, otherwise the
  text before the first colon and the text after it.\<close>

definition SplitN_colon :: "string \<Rightarrow> string list" where
  "SplitN_colon t =
     (if CHR '':'' \<in> set t
      then [takeWhile (\<lambda>c. c \<noteq> CHR '':'') t, tl (dropWhile (\<lambda>c. c \<noteq> CHR '':'') t)]
      else [t])"

text \<open>
  \<open>strconv.Atoi\<close> on a 64-bit platform: an optional sign, then one or more decimal digits
  and nothing else; a value outside the range of \<open>int\<close> is an error.
\<close>

definition is_digit :: "char \<Rightarrow> bool" where
  "is_digit ch = (48 \<le> (of_char ch :: nat) \<and> (of_char ch :: nat) \<le> 57)"

fun digits_value :: "int \<Rightarrow> string \<Rightarrow> int" where
  "digits_value n [] = n"
| "digits_value n (ch # s) = digits_value (n * 10 + (int (of_char ch) - 48)) s"

definition Atoi :: "string \<Rightarrow> int option" where
  "Atoi s0 =
     (case s0 of
        [] \<Rightarrow> None
      | c # rest \<Rightarrow>
          (let s = (if c = CHR ''-'' \<or> c = CHR ''+'' then rest else s0) in
           if s = [] \<or> \<not> list_all is_digit s then None
           else (let n = digits_value 0 s;
                     v = (if c = CHR ''-'' then - n else n)
                 in if - (2 ^ 63) \<le> v \<and> v < 2 ^ 63 then Some v else None)))"

text \<open>
  The first loop of \<open>HandleNewOrder\<close>: \<open>toppingsMap\<close> is a Go \<open>map[int][]string\<close>;
  \<open>toppings_at m i\<close> is the index expression \<open>toppingsMap[i]\<close>.
\<close>

definition toppings_at :: "(int \<rightharpoonup> string list) \<Rightarrow> int \<Rightarrow> string list" where
  "toppings_at m i = (case m i of None \<Rightarrow> [] | Some ts \<Rightarrow> ts)"

fun parse_toppings :: "string list \<Rightarrow> (int \<rightharpoonup> string list) \<Rightarrow> (int \<rightharpoonup> string list)" where
  "parse_toppings [] m = m"
| "parse_toppings (t # ts) m =
     (let parts = SplitN_colon t in
      if length parts \<noteq> 2 then parse_toppings ts m
      else (case Atoi (parts ! 0) of
              None \<Rightarrow> parse_toppings ts m
            | Some index \<Rightarrow>
                parse_toppings ts (m(index \<mapsto> toppings_at m index @ [parts ! 1]))))"

definition toppingsMap :: "OrderRequest \<Rightarrow> (int \<rightharpoonup> string list)" where
  "toppingsMap form = parse_toppings (rq_Toppings form) Map.empty"

text \<open>The inner loop over \<open>defaultToppings\<close>: \<open>isExtra\<close> starts true and the first
  default equal to the topping clears it.\<close>

fun isExtra :: "string list \<Rightarrow> string \<Rightarrow> bool" where
  "isExtra [] topping = True"
| "isExtra (def # defs) topping = (if def = topping then False else isExtra defs topping)"

definition crust_of :: "OrderRequest \<Rightarrow> nat \<Rightarrow> string" where
  "crust_of form i =
     (if i < length (rq_Crusts form) \<and> rq_Crusts form ! i \<noteq> [] then rq_Crusts form ! i
      else ''Regular'')"

definition instruction_of :: "OrderRequest \<Rightarrow> nat \<Rightarrow> string" where
  "instruction_of form i =
     (if i < length (rq_Instructions form) then rq_Instructions form ! i else [])"

definition pizzaToppings_of :: "OrderRequest \<Rightarrow> nat \<Rightarrow> string list" where
  "pizzaToppings_of form i =
     (let pizzaToppings = toppings_at (toppingsMap form) (int i) in
      if length pizzaToppings = 0 then default_toppings (rq_PizzaTypes form ! i)
      else pizzaToppings)"

definition topping_row :: "string list \<Rightarrow> string \<Rightarrow> OrderItemTopping" where
  "topping_row defaultToppings topping =
     \<lparr>tp_ID = [], tp_OrderItemID = [], tp_Topping = topping,
      tp_IsExtra = isExtra defaultToppings topping\<rparr>"

definition dietary_row :: "string \<Rightarrow> OrderItemDietaryRequirement" where
  "dietary_row dietary = \<lparr>dr_ID = [], dr_OrderItemID = [], dr_DietaryRequirement = dietary\<rparr>"

definition allergy_row :: "string \<Rightarrow> OrderItemAllergy" where
  "allergy_row allergy = \<lparr>al_ID = [], al_OrderItemID = [], al_Allergy = allergy\<rparr>"

datatype panic = IndexOutOfRange

text \<open>
  One round of the loop over \<open>orderItems\<close>. \<open>form.Sizes[i]\<close> is in range by the loop
  bound; \<open>form.PizzaTypes[i]\<close> panics when the form has fewer pizza types than sizes.
  The handler works out a crust (\<open>crust_of\<close>), but \<open>OrderItem\<close> declares no field that
  could hold it, so the item is made of size, pizza type and instructions.
\<close>

definition make_item :: "OrderRequest \<Rightarrow> nat \<Rightarrow> panic + OrderItem" where
  "make_item form i =
     (if i < length (rq_PizzaTypes form) then
        Inr \<lparr>oi_ID = [], oi_OrderID = [],
             oi_Size = rq_Sizes form ! i,
             oi_Pizza = rq_PizzaTypes form ! i,
             oi_Instructions = instruction_of form i,
             oi_DietaryRequirement = map dietary_row (rq_DietaryRequirements form),
             oi_Toppings =
               map (topping_row (default_toppings (rq_PizzaTypes form ! i)))
                 (pizzaToppings_of form i),
             oi_Allergies = map allergy_row (rq_Allergies form)\<rparr>
      else Inl IndexOutOfRange)"

fun make_items :: "OrderRequest \<Rightarrow> nat list \<Rightarrow> panic + OrderItem list" where
  "make_items form [] = Inr []"
| "make_items form (i # is) =
     (case make_item form i of
        Inl e \<Rightarrow> Inl e
      | Inr item \<Rightarrow>
          (case make_items form is of Inl e \<Rightarrow> Inl e | Inr items \<Rightarrow> Inr (item # items)))"

text \<open>The order value that \<open>HandleNewOrder\<close> hands to \<open>CreateOrder\<close>.\<close>

definition build_order :: "OrderRequest \<Rightarrow> panic + Order" where
  "build_order form =
     (case make_items form [0 ..< length (rq_Sizes form)] of
        Inl e \<Rightarrow> Inl e
      | Inr orderItems \<Rightarrow>
          Inr \<lparr>o_ID = [], o_Status = OrderStatusPlaced,
               o_CustomerName = rq_Name form, o_Phone = rq_Phone form,
               o_Address = rq_Address form, o_Items = orderItems, o_CreatedAt = 0\<rparr>)"

section \<open>The store behind OrderModel\<close>

text \<open>
  \<open>OrderModel\<close> holds a database handle with one table per struct. A table is the list of
  its rows in the order they were inserted. A row of \<open>orders\<close> or of \<open>order_items\<close> is the
  struct without its association fields, which live in the tables of their own.
\<close>

record DB =
  orders :: "Order list"
  order_items :: "OrderItem list"
  order_item_dietary_requirements :: "OrderItemDietaryRequirement list"
  order_item_toppings :: "OrderItemTopping list"
  order_item_allergies :: "OrderItemAllergy list"

datatype db_error = ErrRecordNotFound | ErrUniqueConstraint

definition order_row :: "Order \<Rightarrow> Order" where
  "order_row ord = ord\<lparr>o_Items := []\<rparr>"

definition item_row :: "OrderItem \<Rightarrow> OrderItem" where
  "item_row it = it\<lparr>oi_DietaryRequirement := [], oi_Toppings := [], oi_Allergies := []\<rparr>"

subsection \<open>The BeforeCreate hooks\<close>

text \<open>
  Each hook fills the identifier in only when it is empty. \<open>shortid\<close> is the sequence of
  values that \<open>shortid.MustGenerate\<close> returns during one call of \<open>CreateOrder\<close>, and the
  number threaded through the hooks counts the values taken so far.
\<close>

definition Order_BeforeCreate :: "(nat \<Rightarrow> string) \<Rightarrow> Order \<Rightarrow> nat \<Rightarrow> Order \<times> nat" where
  "Order_BeforeCreate shortid ord n =
     (if o_ID ord = [] then (ord\<lparr>o_ID := shortid n\<rparr>, Suc n) else (ord, n))"

definition OrderItem_BeforeCreate ::
  "(nat \<Rightarrow> string) \<Rightarrow> OrderItem \<Rightarrow> nat \<Rightarrow> OrderItem \<times> nat" where
  "OrderItem_BeforeCreate shortid oi n =
     (if oi_ID oi = [] then (oi\<lparr>oi_ID := shortid n\<rparr>, Suc n) else (oi, n))"

definition OrderItemTopping_BeforeCreate ::
  "(nat \<Rightarrow> string) \<Rightarrow> OrderItemTopping \<Rightarrow> nat \<Rightarrow> OrderItemTopping \<times> nat" where
  "OrderItemTopping_BeforeCreate shortid t n =
     (if tp_ID t = [] then (t\<lparr>tp_ID := shortid n\<rparr>, Suc n) else (t, n))"

definition OrderItemDietaryRequirement_BeforeCreate ::
  "(nat \<Rightarrow> string) \<Rightarrow> OrderItemDietaryRequirement \<Rightarrow> nat
     \<Rightarrow> OrderItemDietaryRequirement \<times> nat" where
  "OrderItemDietaryRequirement_BeforeCreate shortid d n =
     (if dr_ID d = [] then (d\<lparr>dr_ID := shortid n\<rparr>, Suc n) else (d, n))"

definition OrderItemAllergy_BeforeCreate ::
  "(nat \<Rightarrow> string) \<Rightarrow> OrderItemAllergy \<Rightarrow> nat \<Rightarrow> OrderItemAllergy \<times> nat" where
  "OrderItemAllergy_BeforeCreate shortid a n =
     (if al_ID a = [] then (a\<lparr>al_ID := shortid n\<rparr>, Suc n) else (a, n))"

text \<open>Running one hook over the rows of a batch, first row first.\<close>

fun hooks :: "('a \<Rightarrow> nat \<Rightarrow> 'a \<times> nat) \<Rightarrow> 'a list \<Rightarrow> nat \<Rightarrow> 'a list \<times> nat" where
  "hooks h [] n = ([], n)"
| "hooks h (x # xs) n =
     (case h x n of (x', n1) \<Rightarrow> (case hooks h xs n1 of (xs', n2) \<Rightarrow> (x' # xs', n2)))"

subsection \<open>Create with associations\<close>

text \<open>
  \<open>DB.Create\<close> on an order writes the header, then its items, then the rows of each
  association of the items. Before a child row is written its owning key is set to the
  identifier of its parent, and its hook runs. The creation time is filled in when the
  caller left it zero. \<open>assign_ids\<close> is this pass over the value in memory: the hooks
  look at nothing but the identifier of their own row, so the pass is independent of the
  tables.
\<close>

definition dietary_pass ::
  "(nat \<Rightarrow> string) \<Rightarrow> OrderItem \<Rightarrow> nat \<Rightarrow> OrderItem \<times> nat" where
  "dietary_pass shortid it n =
     (case hooks (OrderItemDietaryRequirement_BeforeCreate shortid)
             (map (\<lambda>d. d\<lparr>dr_OrderItemID := oi_ID it\<rparr>) (oi_DietaryRequirement it)) n of
        (rows, n') \<Rightarrow> (it\<lparr>oi_DietaryRequirement := rows\<rparr>, n'))"

definition toppings_pass ::
  "(nat \<Rightarrow> string) \<Rightarrow> OrderItem \<Rightarrow> nat \<Rightarrow> OrderItem \<times> nat" where
  "toppings_pass shortid it n =
     (case hooks (OrderItemTopping_BeforeCreate shortid)
             (map (\<lambda>t. t\<lparr>tp_OrderItemID := oi_ID it\<rparr>) (oi_Toppings it)) n of
        (rows, n') \<Rightarrow> (it\<lparr>oi_Toppings := rows\<rparr>, n'))"

definition allergies_pass ::
  "(nat \<Rightarrow> string) \<Rightarrow> OrderItem \<Rightarrow> nat \<Rightarrow> OrderItem \<times> nat" where
  "allergies_pass shortid it n =
     (case hooks (OrderItemAllergy_BeforeCreate shortid)
             (map (\<lambda>a. a\<lparr>al_OrderItemID := oi_ID it\<rparr>) (oi_Allergies it)) n of
        (rows, n') \<Rightarrow> (it\<lparr>oi_Allergies := rows\<rparr>, n'))"

definition assign_ids :: "(nat \<Rightarrow> string) \<Rightarrow> nat \<Rightarrow> Order \<Rightarrow> Order \<times> nat" where
  "assign_ids shortid now ord =
     (case Order_BeforeCreate shortid ord 0 of (o1, n1) \<Rightarrow>
      case hooks (OrderItem_BeforeCreate shortid)
             (map (\<lambda>it. it\<lparr>oi_OrderID := o_ID o1\<rparr>) (o_Items o1)) n1 of (its1, n2) \<Rightarrow>
      case hooks (dietary_pass shortid) its1 n2 of (its2, n3) \<Rightarrow>
      case hooks (toppings_pass shortid) its2 n3 of (its3, n4) \<Rightarrow>
      case hooks (allergies_pass shortid) its3 n4 of (its4, n5) \<Rightarrow>
        (o1\<lparr>o_CreatedAt := (if o_CreatedAt o1 = 0 then now else o_CreatedAt o1),
            o_Items := its4\<rparr>, n5))"

text \<open>
  The header is written by a plain insert, which appends the row and fails on the
  primary key: when the identifier is that of a row already in the table.
\<close>

definition insert_rows :: "('a \<Rightarrow> string) \<Rightarrow> 'a list \<Rightarrow> 'a list \<Rightarrow> db_error + 'a list" where
  "insert_rows key tbl rows =
     (if distinct (map key rows) \<and> list_all (\<lambda>r. key r \<notin> set (map key tbl)) rows
      then Inr (tbl @ rows) else Inl ErrUniqueConstraint)"

text \<open>
  The rows of an association are written by an insert with a conflict clause on the
  primary key: a row whose identifier is not in the table is appended; a row whose
  identifier is already there is not written, and the row of the table takes over its
  owning key and keeps everything else. The rows of a batch are taken in their order.
\<close>

definition upsert :: "('a \<Rightarrow> string) \<Rightarrow> ('a \<Rightarrow> 'a \<Rightarrow> 'a) \<Rightarrow> 'a list \<Rightarrow> 'a \<Rightarrow> 'a list" where
  "upsert key adopt tbl row =
     (if key row \<in> set (map key tbl)
      then map (\<lambda>r. if key r = key row then adopt r row else r) tbl
      else tbl @ [row])"

fun upsert_rows :: "('a \<Rightarrow> string) \<Rightarrow> ('a \<Rightarrow> 'a \<Rightarrow> 'a) \<Rightarrow> 'a list \<Rightarrow> 'a list \<Rightarrow> 'a list" where
  "upsert_rows key adopt tbl [] = tbl"
| "upsert_rows key adopt tbl (row # rows) = upsert_rows key adopt (upsert key adopt tbl row) rows"

definition adopt_item :: "OrderItem \<Rightarrow> OrderItem \<Rightarrow> OrderItem" where
  "adopt_item r row = r\<lparr>oi_OrderID := oi_OrderID row\<rparr>"

definition adopt_dietary ::
  "OrderItemDietaryRequirement \<Rightarrow> OrderItemDietaryRequirement \<Rightarrow> OrderItemDietaryRequirement" where
  "adopt_dietary r row = r\<lparr>dr_OrderItemID := dr_OrderItemID row\<rparr>"

definition adopt_topping :: "OrderItemTopping \<Rightarrow> OrderItemTopping \<Rightarrow> OrderItemTopping" where
  "adopt_topping r row = r\<lparr>tp_OrderItemID := tp_OrderItemID row\<rparr>"

definition adopt_allergy :: "OrderItemAllergy \<Rightarrow> OrderItemAllergy \<Rightarrow> OrderItemAllergy" where
  "adopt_allergy r row = r\<lparr>al_OrderItemID := al_OrderItemID row\<rparr>"

definition insert_graph :: "DB \<Rightarrow> Order \<Rightarrow> db_error + DB" where
  "insert_graph db ord =
     (case insert_rows o_ID (orders db) [order_row ord] of
        Inl e \<Rightarrow> Inl e
      | Inr os \<Rightarrow>
          Inr \<lparr>orders = os,
               order_items =
                 upsert_rows oi_ID adopt_item (order_items db) (map item_row (o_Items ord)),
               order_item_dietary_requirements =
                 upsert_rows dr_ID adopt_dietary (order_item_dietary_requirements db)
                   (concat (map oi_DietaryRequirement (o_Items ord))),
               order_item_toppings =
                 upsert_rows tp_ID adopt_topping (order_item_toppings db)
                   (concat (map oi_Toppings (o_Items ord))),
               order_item_allergies =
                 upsert_rows al_ID adopt_allergy (order_item_allergies db)
                   (concat (map oi_Allergies (o_Items ord)))\<rparr>)"

text \<open>
  \<open>CreateOrder\<close> returns the error of \<open>DB.Create\<close>. On success the caller's order holds
  the identifiers assigned, and the tables hold the new rows. A failed \<open>Create\<close> is taken
  to leave the tables as they were: the library runs the call in a transaction of its
  own, and nothing in \<open>CreateOrder\<close> adds to that or takes from it.
\<close>

definition CreateOrder ::
  "(nat \<Rightarrow> string) \<Rightarrow> nat \<Rightarrow> DB \<Rightarrow> Order \<Rightarrow> db_error + (DB \<times> Order)" where
  "CreateOrder shortid now db ord =
     (case assign_ids shortid now ord of (ord', n) \<Rightarrow>
      case insert_graph db ord' of Inl e \<Rightarrow> Inl e | Inr db' \<Rightarrow> Inr (db', ord'))"

subsection \<open>Read with preloaded associations\<close>

definition zero_Order :: Order where
  "zero_Order =
     \<lparr>o_ID = [], o_Status = [], o_CustomerName = [], o_Phone = [], o_Address = [],
      o_Items = [], o_CreatedAt = 0\<rparr>"

text \<open>\<open>Preload\<close> of the three associations of an item: the rows that carry the item's
  identifier as owning key, in table order.\<close>

definition preload_item :: "DB \<Rightarrow> OrderItem \<Rightarrow> OrderItem" where
  "preload_item db it =
     it\<lparr>oi_DietaryRequirement :=
          filter (\<lambda>d. dr_OrderItemID d = oi_ID it) (order_item_dietary_requirements db),
        oi_Toppings := filter (\<lambda>t. tp_OrderItemID t = oi_ID it) (order_item_toppings db),
        oi_Allergies := filter (\<lambda>a. al_OrderItemID a = oi_ID it) (order_item_allergies db)\<rparr>"

text \<open>
  \<open>GetOrder\<close> returns a pointer to its local \<open>order\<close> together with the error of
  \<open>First\<close>. When no row has the identifier, \<open>First\<close> reports \<open>ErrRecordNotFound\<close> and
  leaves \<open>order\<close> as declared, zero-valued.
\<close>

definition GetOrder :: "DB \<Rightarrow> string \<Rightarrow> Order \<times> db_error option" where
  "GetOrder db ident =
     (case find (\<lambda>row. o_ID row = ident) (orders db) of
        None \<Rightarrow> (zero_Order, Some ErrRecordNotFound)
      | Some row \<Rightarrow>
          (row\<lparr>o_Items :=
                 map (preload_item db)
                   (filter (\<lambda>it. oi_OrderID it = o_ID row) (order_items db))\<rparr>,
           None))"

section \<open>The handlers as functions of the store\<close>

record CustomerData =
  cd_Title :: string
  cd_Order :: Order
  cd_Statuses :: "string list"

datatype reply =
    JSON nat
  | String nat string
  | Redirect nat string
  | HTML nat string CustomerData
  | Panicked panic

text \<open>
  \<open>HandleNewOrder\<close>: \<open>ShouldBind\<close> stands for the binding and validation of the form by
  the web framework. The reply to a form that does not bind is a JSON body with status
  400.
\<close>

definition HandleNewOrder ::
  "(OrderRequest \<Rightarrow> bool) \<Rightarrow> (nat \<Rightarrow> string) \<Rightarrow> nat \<Rightarrow> DB \<Rightarrow> OrderRequest \<Rightarrow> DB \<times> reply" where
  "HandleNewOrder ShouldBind shortid now db form =
     (if \<not> ShouldBind form then (db, JSON 400)
      else (case build_order form of
              Inl p \<Rightarrow> (db, Panicked p)
            | Inr ord \<Rightarrow>
                (case CreateOrder shortid now db ord of
                   Inl err \<Rightarrow> (db, String 500 ''Something went wrong'')
                 | Inr (db', ord') \<Rightarrow> (db', Redirect 303 (''/customer/'' @ o_ID ord')))))"

text \<open>
  \<open>serveCustomer\<close>: the list of replies written. The branch for an empty identifier
  writes its reply and does not return.
\<close>

definition serveCustomer :: "DB \<Rightarrow> string \<Rightarrow> reply list" where
  "serveCustomer db orderID =
     (if orderID = [] then [String 400 ''Order ID is required''] else []) @
     (case GetOrder db orderID of
        (ord, Some err) \<Rightarrow> [String 404 ''Order Not Found'']
      | (ord, None) \<Rightarrow>
          [HTML 200 ''customer.tmpl''
             \<lparr>cd_Title = ''Pizza Order Status'' @ orderID, cd_Order = ord,
              cd_Statuses = OrderStatuses\<rparr>])"

section \<open>Notions used to state the properties\<close>

text \<open>
  What one submitted topping entry contributes: the body of the first loop of
  \<open>HandleNewOrder\<close>, for a single entry.
\<close>

definition entry_of :: "string \<Rightarrow> (int \<times> string) option" where
  "entry_of t =
     (let parts = SplitN_colon t in
      if length parts \<noteq> 2 then None
      else (case Atoi (parts ! 0) of None \<Rightarrow> None | Some index \<Rightarrow> Some (index, parts ! 1)))"

text \<open>The labels of the entries that parse to index \<open>i\<close>, in the order submitted.\<close>

definition selection_of :: "string list \<Rightarrow> int \<Rightarrow> string list" where
  "selection_of ts i = map snd (filter (\<lambda>e. fst e = i) (List.map_filter entry_of ts))"

text \<open>
  The form of an integer: an optional sign and at least one decimal digit. An entry is
  malformed when it has no colon or when the text before its first colon is not of that
  form.
\<close>

definition integer_text :: "string \<Rightarrow> bool" where
  "integer_text s =
     (case s of
        [] \<Rightarrow> False
      | c # r \<Rightarrow>
          if c = CHR ''+'' \<or> c = CHR ''-'' then r \<noteq> [] \<and> list_all is_digit r
          else list_all is_digit s)"

definition malformed :: "string \<Rightarrow> bool" where
  "malformed t =
     (CHR '':'' \<notin> set t \<or> \<not> integer_text (takeWhile (\<lambda>c. c \<noteq> CHR '':'') t))"

section \<open>Example submissions\<close>

definition margherita_form :: OrderRequest where
  "margherita_form =
     \<lparr>rq_Name = ''Ada'', rq_Phone = ''0123456789'', rq_Address = ''1 Main St'',
      rq_Sizes = [''Large''], rq_PizzaTypes = [''Margherita''], rq_Crusts = [''Thin''],
      rq_Instructions = [], rq_Toppings = [], rq_DietaryRequirements = [''Vegan''],
      rq_Allergies = [''Nuts'']\<rparr>"

definition margherita_item :: "OrderItemTopping list \<Rightarrow> OrderItem" where
  "margherita_item rows =
     \<lparr>oi_ID = [], oi_OrderID = [], oi_Size = ''Large'', oi_Pizza = ''Margherita'',
      oi_Instructions = [],
      oi_DietaryRequirement =
        [\<lparr>dr_ID = [], dr_OrderItemID = [], dr_DietaryRequirement = ''Vegan''\<rparr>],
      oi_Toppings = rows,
      oi_Allergies = [\<lparr>al_ID = [], al_OrderItemID = [], al_Allergy = ''Nuts''\<rparr>]\<rparr>"

definition plain :: "string \<Rightarrow> OrderItemTopping" where
  "plain t = \<lparr>tp_ID = [], tp_OrderItemID = [], tp_Topping = t, tp_IsExtra = False\<rparr>"

definition extra :: "string \<Rightarrow> OrderItemTopping" where
  "extra t = \<lparr>tp_ID = [], tp_OrderItemID = [], tp_Topping = t, tp_IsExtra = True\<rparr>"

definition ada_order :: "OrderItem list \<Rightarrow> Order" where
  "ada_order items =
     \<lparr>o_ID = [], o_Status = ''Order Placed'', o_CustomerName = ''Ada'',
      o_Phone = ''0123456789'', o_Address = ''1 Main St'', o_Items = items,
      o_CreatedAt = 0\<rparr>"

definition margherita_order :: Order where
  "margherita_order =
     ada_order [margherita_item
       [plain ''Tomato Sauce'', plain ''Mozzarella'', plain ''Tomatoes'', plain ''Basil'']]"

definition pepperoni_added_form :: OrderRequest where
  "pepperoni_added_form =
     margherita_form\<lparr>rq_Toppings :=
       [''0:Tomato Sauce'', ''0:Mozzarella'', ''0:Tomatoes'', ''0:Basil'', ''0:Pepperoni'']\<rparr>"

definition pepperoni_added_order :: Order where
  "pepperoni_added_order =
     ada_order [margherita_item
       [plain ''Tomato Sauce'', plain ''Mozzarella'', plain ''Tomatoes'', plain ''Basil'',
        extra ''Pepperoni'']]"

definition two_pizza_form :: OrderRequest where
  "two_pizza_form =
     margherita_form\<lparr>rq_Sizes := [''Large'', ''Small''],
       rq_PizzaTypes := [''Margherita'', ''Make Your Own''],
       rq_DietaryRequirements := [''Vegan'', ''Halal''],
       rq_Allergies := [''Nuts'', ''Soy'']\<rparr>"

section \<open>Notions about the store\<close>

text \<open>
  The invariant of the tables: every owning key names a row of the owning table. The
  empty store has it and \<open>CreateOrder\<close> keeps it.
\<close>

definition referential :: "DB \<Rightarrow> bool" where
  "referential db =
     ((\<forall>it \<in> set (order_items db). oi_OrderID it \<in> o_ID ` set (orders db)) \<and>
      (\<forall>d \<in> set (order_item_dietary_requirements db).
         dr_OrderItemID d \<in> oi_ID ` set (order_items db)) \<and>
      (\<forall>t \<in> set (order_item_toppings db).
         tp_OrderItemID t \<in> oi_ID ` set (order_items db)) \<and>
      (\<forall>a \<in> set (order_item_allergies db).
         al_OrderItemID a \<in> oi_ID ` set (order_items db)))"



text \<open>An order in memory whose children carry the identifier of their parent.\<close>

definition linked_item :: "OrderItem \<Rightarrow> bool" where
  "linked_item it =
     ((\<forall>d \<in> set (oi_DietaryRequirement it). dr_OrderItemID d = oi_ID it) \<and>
      (\<forall>t \<in> set (oi_Toppings it). tp_OrderItemID t = oi_ID it) \<and>
      (\<forall>a \<in> set (oi_Allergies it). al_OrderItemID a = oi_ID it))"

definition linked :: "Order \<Rightarrow> bool" where
  "linked ord = (\<forall>it \<in> set (o_Items ord). oi_OrderID it = o_ID ord \<and> linked_item it)"

text \<open>
  The rule of every hook: an identifier that was empty is one of the first \<open>n\<close> values of
  the generator, an identifier that was not empty is unchanged.
\<close>

definition kept_or_generated :: "(nat \<Rightarrow> string) \<Rightarrow> nat \<Rightarrow> string \<Rightarrow> string \<Rightarrow> bool" where
  "kept_or_generated shortid n old new =
     (if old = [] then new \<in> shortid ` {..<n} else new = old)"

text \<open>What the pass over the value in memory does to one item, and its three stages.\<close>

definition assigned_item ::
  "(nat \<Rightarrow> string) \<Rightarrow> nat \<Rightarrow> string \<Rightarrow> OrderItem \<Rightarrow> OrderItem \<Rightarrow> bool" where
  "assigned_item shortid n owner it it' =
     (oi_Size it' = oi_Size it \<and> oi_Pizza it' = oi_Pizza it \<and>
      oi_Instructions it' = oi_Instructions it \<and> oi_OrderID it' = owner \<and>
      kept_or_generated shortid n (oi_ID it) (oi_ID it') \<and>
      list_all2 (\<lambda>d d'. dr_DietaryRequirement d' = dr_DietaryRequirement d \<and>
                   dr_OrderItemID d' = oi_ID it' \<and>
                   kept_or_generated shortid n (dr_ID d) (dr_ID d'))
        (oi_DietaryRequirement it) (oi_DietaryRequirement it') \<and>
      list_all2 (\<lambda>t t'. tp_Topping t' = tp_Topping t \<and> tp_IsExtra t' = tp_IsExtra t \<and>
                   tp_OrderItemID t' = oi_ID it' \<and>
                   kept_or_generated shortid n (tp_ID t) (tp_ID t'))
        (oi_Toppings it) (oi_Toppings it') \<and>
      list_all2 (\<lambda>a a'. al_Allergy a' = al_Allergy a \<and> al_OrderItemID a' = oi_ID it' \<and>
                   kept_or_generated shortid n (al_ID a) (al_ID a'))
        (oi_Allergies it) (oi_Allergies it'))"

definition dietary_done :: "(nat \<Rightarrow> string) \<Rightarrow> nat \<Rightarrow> OrderItem \<Rightarrow> OrderItem \<Rightarrow> bool" where
  "dietary_done shortid b it it' =
     (\<exists>rows. it' = it\<lparr>oi_DietaryRequirement := rows\<rparr> \<and>
        list_all2 (\<lambda>d d'. \<exists>v. d' = d\<lparr>dr_OrderItemID := oi_ID it, dr_ID := v\<rparr> \<and>
                     kept_or_generated shortid b (dr_ID d) v)
          (oi_DietaryRequirement it) rows)"

definition toppings_done :: "(nat \<Rightarrow> string) \<Rightarrow> nat \<Rightarrow> OrderItem \<Rightarrow> OrderItem \<Rightarrow> bool" where
  "toppings_done shortid b it it' =
     (\<exists>rows. it' = it\<lparr>oi_Toppings := rows\<rparr> \<and>
        list_all2 (\<lambda>t t'. \<exists>v. t' = t\<lparr>tp_OrderItemID := oi_ID it, tp_ID := v\<rparr> \<and>
                     kept_or_generated shortid b (tp_ID t) v)
          (oi_Toppings it) rows)"

definition allergies_done :: "(nat \<Rightarrow> string) \<Rightarrow> nat \<Rightarrow> OrderItem \<Rightarrow> OrderItem \<Rightarrow> bool" where
  "allergies_done shortid b it it' =
     (\<exists>rows. it' = it\<lparr>oi_Allergies := rows\<rparr> \<and>
        list_all2 (\<lambda>a a'. \<exists>v. a' = a\<lparr>al_OrderItemID := oi_ID it, al_ID := v\<rparr> \<and>
                     kept_or_generated shortid b (al_ID a) v)
          (oi_Allergies it) rows)"






section \<open>Example stores and orders\<close>

definition sample_id :: "nat \<Rightarrow> string" where
  "sample_id n = ''id'' @ replicate n (CHR ''x'')"

definition empty_DB :: DB where
  "empty_DB =
     \<lparr>orders = [], order_items = [], order_item_dietary_requirements = [],
      order_item_toppings = [], order_item_allergies = []\<rparr>"

definition stocked_DB :: DB where
  "stocked_DB =
     \<lparr>orders =
        [\<lparr>o_ID = ''o1'', o_Status = ''Ready'', o_CustomerName = ''Bob'',
          o_Phone = ''0987654321'', o_Address = ''2 Side St'', o_Items = [],
          o_CreatedAt = 3\<rparr>],
      order_items =
        [\<lparr>oi_ID = ''i1'', oi_OrderID = ''o1'', oi_Size = ''Small'', oi_Pizza = ''Garlic'',
          oi_Instructions = [], oi_DietaryRequirement = [], oi_Toppings = [],
          oi_Allergies = []\<rparr>],
      order_item_dietary_requirements = [],
      order_item_toppings =
        [\<lparr>tp_ID = ''t1'', tp_OrderItemID = ''i1'', tp_Topping = ''Garlic'',
          tp_IsExtra = False\<rparr>],
      order_item_allergies = []\<rparr>"


definition bare_item :: OrderItem where
  "bare_item =
     \<lparr>oi_ID = [], oi_OrderID = [], oi_Size = ''Small'', oi_Pizza = ''Make Your Own'',
      oi_Instructions = [], oi_DietaryRequirement = [], oi_Toppings = [],
      oi_Allergies = []\<rparr>"

definition preset_order :: Order where
  "preset_order = (ada_order [bare_item\<lparr>oi_ID := ''def''\<rparr>])\<lparr>o_ID := ''abc''\<rparr>"

definition preset_stored :: Order where
  "preset_stored =
     (ada_order [bare_item\<lparr>oi_ID := ''def'', oi_OrderID := ''abc''\<rparr>])
       \<lparr>o_ID := ''abc'', o_CreatedAt := 7\<rparr>"

definition preset_DB :: DB where
  "preset_DB =
     \<lparr>orders = [(ada_order [])\<lparr>o_ID := ''abc'', o_CreatedAt := 7\<rparr>],
      order_items = [bare_item\<lparr>oi_ID := ''def'', oi_OrderID := ''abc''\<rparr>],
      order_item_dietary_requirements = [], order_item_toppings = [],
      order_item_allergies = []\<rparr>"




definition preset_item_order :: Order where
  "preset_item_order = ada_order [(margherita_item [plain ''Basil''])\<lparr>oi_ID := ''def''\<rparr>]"

section \<open>The loop over the items\<close>

lemma isExtra_iff: "isExtra defs topping = (topping \<notin> set defs)"
  by (induction defs) auto

lemma make_items_nth:
  "make_items form js = Inr items \<Longrightarrow>
   length items = length js \<and> (\<forall>k < length js. make_item form (js ! k) = Inr (items ! k))"
proof (induction js arbitrary: items)
  case Nil
  then show ?case by simp
next
  case (Cons j js)
  then obtain item rest where
    h: "make_item form j = Inr item" "make_items form js = Inr rest" "items = item # rest"
    by (auto split: sum.splits)
  from Cons.IH [OF h(2)] h show ?case
    by (auto simp: nth_Cons split: nat.splits)
qed

lemma build_order_items:
  assumes "build_order form = Inr ord"
  shows "length (o_Items ord) = length (rq_Sizes form)"
    and "i < length (rq_Sizes form) \<Longrightarrow> make_item form i = Inr (o_Items ord ! i)"
proof -
  from assms obtain items where
    h: "make_items form [0 ..< length (rq_Sizes form)] = Inr items" "o_Items ord = items"
    by (auto simp: build_order_def split: sum.splits)
  from make_items_nth [OF h(1)] h(2)
  show "length (o_Items ord) = length (rq_Sizes form)" by simp
  from make_items_nth [OF h(1)] h(2)
  show "i < length (rq_Sizes form) \<Longrightarrow> make_item form i = Inr (o_Items ord ! i)" by simp
qed

lemma build_order_item:
  assumes "build_order form = Inr ord" "i < length (o_Items ord)"
  shows "i < length (rq_PizzaTypes form)"
    and "oi_Pizza (o_Items ord ! i) = rq_PizzaTypes form ! i"
    and "oi_Toppings (o_Items ord ! i) =
           map (topping_row (default_toppings (rq_PizzaTypes form ! i))) (pizzaToppings_of form i)"
    and "oi_DietaryRequirement (o_Items ord ! i) = map dietary_row (rq_DietaryRequirements form)"
    and "oi_Allergies (o_Items ord ! i) = map allergy_row (rq_Allergies form)"
proof -
  from assms build_order_items [OF assms(1)]
  have m: "make_item form i = Inr (o_Items ord ! i)" by simp
  then show "i < length (rq_PizzaTypes form)"
    by (simp add: make_item_def split: if_splits)
  with m have e: "o_Items ord ! i = \<lparr>oi_ID = [], oi_OrderID = [],
             oi_Size = rq_Sizes form ! i,
             oi_Pizza = rq_PizzaTypes form ! i,
             oi_Instructions = instruction_of form i,
             oi_DietaryRequirement = map dietary_row (rq_DietaryRequirements form),
             oi_Toppings =
               map (topping_row (default_toppings (rq_PizzaTypes form ! i)))
                 (pizzaToppings_of form i),
             oi_Allergies = map allergy_row (rq_Allergies form)\<rparr>"
    by (simp add: make_item_def)
  show "oi_Pizza (o_Items ord ! i) = rq_PizzaTypes form ! i" by (subst e) simp
  show "oi_Toppings (o_Items ord ! i) =
           map (topping_row (default_toppings (rq_PizzaTypes form ! i))) (pizzaToppings_of form i)"
    by (subst e) simp
  show "oi_DietaryRequirement (o_Items ord ! i) = map dietary_row (rq_DietaryRequirements form)"
    by (subst e) simp
  show "oi_Allergies (o_Items ord ! i) = map allergy_row (rq_Allergies form)"
    by (subst e) simp
qed

lemma margherita_build: "build_order margherita_form = Inr margherita_order"
  by code_simp

lemma pepperoni_added_build: "build_order pepperoni_added_form = Inr pepperoni_added_order"
  by code_simp

lemma Margherita_defaults:
  "PizzaDefaultToppings ''Margherita'' =
     Some [''Tomato Sauce'', ''Mozzarella'', ''Tomatoes'', ''Basil'']"
  by (simp add: PizzaDefaultToppings_def PizzaDefaultToppings_entries_def)

section \<open>Parsing of the topping entries\<close>

lemma parse_toppings_selection:
  "toppings_at (parse_toppings ts m) i = toppings_at m i @ selection_of ts i"
proof (induction ts arbitrary: m)
  case Nil
  show ?case by (simp add: selection_of_def List.map_filter_simps)
next
  case (Cons t ts)
  show ?case
  proof (cases "entry_of t")
    case None
    then have "parse_toppings (t # ts) m = parse_toppings ts m"
      by (auto simp: entry_of_def Let_def split: if_splits option.splits)
    with None Cons show ?thesis
      by (simp add: selection_of_def List.map_filter_simps)
  next
    case (Some e)
    obtain j l where e: "e = (j, l)" by (cases e)
    with Some have p:
      "parse_toppings (t # ts) m = parse_toppings ts (m(j \<mapsto> toppings_at m j @ [l]))"
      by (auto simp: entry_of_def Let_def split: if_splits option.splits)
    show ?thesis
      unfolding p Cons using Some e
      by (simp add: selection_of_def List.map_filter_simps toppings_at_def)
  qed
qed

lemma toppingsMap_selection:
  "toppings_at (toppingsMap form) i = selection_of (rq_Toppings form) i"
  unfolding toppingsMap_def parse_toppings_selection by (simp add: toppings_at_def)

lemma Atoi_integer_text: "Atoi s = Some v \<Longrightarrow> integer_text s"
  by (cases s) (auto simp: Atoi_def integer_text_def Let_def split: if_splits)

lemma SplitN_colon_two:
  "length (SplitN_colon t) = 2 \<Longrightarrow>
   CHR '':'' \<in> set t \<and> SplitN_colon t ! 0 = takeWhile (\<lambda>c. c \<noteq> CHR '':'') t"
  by (simp add: SplitN_colon_def split: if_splits)

lemma malformed_entry_of: "malformed t \<Longrightarrow> entry_of t = None"
proof (rule ccontr)
  assume m: "malformed t" and "entry_of t \<noteq> None"
  then obtain v where l: "length (SplitN_colon t) = 2"
    and a: "Atoi (SplitN_colon t ! 0) = Some v"
    by (auto simp: entry_of_def Let_def split: if_splits option.splits)
  from SplitN_colon_two [OF l] Atoi_integer_text [OF a] m show False
    by (simp add: malformed_def)
qed

lemma selection_of_drop:
  "entry_of t = None \<Longrightarrow> selection_of (xs @ t # ys) i = selection_of (xs @ ys) i"
  by (simp add: selection_of_def map_filter_def)

lemma make_item_cong:
  assumes "rq_Sizes f = rq_Sizes g" "rq_PizzaTypes f = rq_PizzaTypes g"
    "rq_Instructions f = rq_Instructions g"
    "rq_DietaryRequirements f = rq_DietaryRequirements g" "rq_Allergies f = rq_Allergies g"
    "selection_of (rq_Toppings f) (int i) = selection_of (rq_Toppings g) (int i)"
  shows "make_item f i = make_item g i"
  using assms
  by (simp add: make_item_def pizzaToppings_of_def toppingsMap_selection instruction_of_def
      Let_def)

lemma make_items_cong:
  "(\<And>i. i \<in> set js \<Longrightarrow> make_item f i = make_item g i) \<Longrightarrow> make_items f js = make_items g js"
  by (induction js) (auto split: sum.splits)

lemma build_order_cong:
  assumes "rq_Name f = rq_Name g" "rq_Phone f = rq_Phone g" "rq_Address f = rq_Address g"
    "rq_Sizes f = rq_Sizes g" "rq_PizzaTypes f = rq_PizzaTypes g"
    "rq_Instructions f = rq_Instructions g"
    "rq_DietaryRequirements f = rq_DietaryRequirements g" "rq_Allergies f = rq_Allergies g"
    "\<And>i. i < length (rq_Sizes f) \<Longrightarrow>
       selection_of (rq_Toppings f) (int i) = selection_of (rq_Toppings g) (int i)"
  shows "build_order f = build_order g"
proof -
  have "make_items f [0 ..< length (rq_Sizes f)] = make_items g [0 ..< length (rq_Sizes f)]"
    by (rule make_items_cong, rule make_item_cong) (use assms in auto)
  with assms(1-4) show ?thesis
    by (simp add: build_order_def split: sum.splits)
qed

text \<open>An entry that parses to an index outside the item positions changes nothing.\<close>

lemma entry_outside_items_ignored:
  assumes "entry_of t = Some (j, l)" "j < 0 \<or> int (length (rq_Sizes form)) \<le> j"
  shows "build_order (form\<lparr>rq_Toppings := xs @ t # ys\<rparr>) =
           build_order (form\<lparr>rq_Toppings := xs @ ys\<rparr>)"
proof (rule build_order_cong)
  fix i assume "i < length (rq_Sizes (form\<lparr>rq_Toppings := xs @ t # ys\<rparr>))"
  with assms
  show "selection_of (rq_Toppings (form\<lparr>rq_Toppings := xs @ t # ys\<rparr>)) (int i) =
     selection_of (rq_Toppings (form\<lparr>rq_Toppings := xs @ ys\<rparr>)) (int i)"
    by (auto simp: selection_of_def map_filter_def)
qed simp_all

section \<open>Properties of the submission handler\<close>

text \<open>
  C3, default substitution. For an item of a built order whose parsed topping selection
  is empty and whose pizza type is a key of the default-topping table, the topping rows
  are the defaults of that type, in table order, each with \<open>IsExtra = false\<close>. One
  Margherita with no selection gets Tomato Sauce, Mozzarella, Tomatoes and Basil, none
  of them extra.
\<close>

theorem default_substitution:
  assumes "build_order form = Inr ord" and "i < length (o_Items ord)"
    and "toppings_at (toppingsMap form) (int i) = []"
    and "PizzaDefaultToppings (oi_Pizza (o_Items ord ! i)) = Some ds"
  shows "oi_Toppings (o_Items ord ! i) =
           map (\<lambda>t. \<lparr>tp_ID = [], tp_OrderItemID = [], tp_Topping = t, tp_IsExtra = False\<rparr>) ds"
proof -
  have d: "default_toppings (rq_PizzaTypes form ! i) = ds"
    using assms(4) build_order_item(2) [OF assms(1,2)] by (simp add: default_toppings_def)
  have "pizzaToppings_of form i = ds"
    using assms(3) d by (simp add: pizzaToppings_of_def)
  then show ?thesis
    using build_order_item(3) [OF assms(1,2)] d
    by (simp add: topping_row_def isExtra_iff)
qed

theorem default_substitution_witness:
  "build_order margherita_form = Inr margherita_order \<and>
   0 < length (o_Items margherita_order) \<and>
   toppings_at (toppingsMap margherita_form) (int 0) = [] \<and>
   PizzaDefaultToppings (oi_Pizza (o_Items margherita_order ! 0)) =
     Some [''Tomato Sauce'', ''Mozzarella'', ''Tomatoes'', ''Basil''] \<and>
   oi_Toppings (o_Items margherita_order ! 0) =
     [\<lparr>tp_ID = [], tp_OrderItemID = [], tp_Topping = ''Tomato Sauce'', tp_IsExtra = False\<rparr>,
      \<lparr>tp_ID = [], tp_OrderItemID = [], tp_Topping = ''Mozzarella'', tp_IsExtra = False\<rparr>,
      \<lparr>tp_ID = [], tp_OrderItemID = [], tp_Topping = ''Tomatoes'', tp_IsExtra = False\<rparr>,
      \<lparr>tp_ID = [], tp_OrderItemID = [], tp_Topping = ''Basil'', tp_IsExtra = False\<rparr>]"
proof -
  have a: "0 < length (o_Items margherita_order)"
    by (simp add: margherita_order_def ada_order_def)
  have t: "toppings_at (toppingsMap margherita_form) (int 0) = []"
    by (simp add: toppingsMap_def margherita_form_def toppings_at_def)
  have p: "PizzaDefaultToppings (oi_Pizza (o_Items margherita_order ! 0)) =
     Some [''Tomato Sauce'', ''Mozzarella'', ''Tomatoes'', ''Basil'']"
    using Margherita_defaults
    by (simp add: margherita_order_def ada_order_def margherita_item_def)
  from default_substitution [OF margherita_build a t p] margherita_build a t p
  show ?thesis by simp
qed

text \<open>
  C4, extra classification. For an item whose parsed topping selection is not empty, the
  topping rows are the selected toppings in the order submitted; a row is marked extra
  exactly when its topping is not among the defaults of the item's pizza type. A
  Margherita with its four defaults and Pepperoni selected gets five rows, Pepperoni
  alone extra.
\<close>

theorem extra_classification:
  assumes "build_order form = Inr ord" and "i < length (o_Items ord)"
    and "toppings_at (toppingsMap form) (int i) = sel" and "sel \<noteq> []"
  shows "oi_Toppings (o_Items ord ! i) =
           map (\<lambda>t. \<lparr>tp_ID = [], tp_OrderItemID = [], tp_Topping = t,
                     tp_IsExtra = (t \<notin> set (default_toppings (oi_Pizza (o_Items ord ! i))))\<rparr>)
             sel"
proof -
  have "pizzaToppings_of form i = sel"
    using assms(3,4) by (simp add: pizzaToppings_of_def)
  then show ?thesis
    using build_order_item(2,3) [OF assms(1,2)]
    by (simp add: topping_row_def isExtra_iff)
qed

theorem extra_classification_witness:
  "build_order pepperoni_added_form = Inr pepperoni_added_order \<and>
   0 < length (o_Items pepperoni_added_order) \<and>
   toppings_at (toppingsMap pepperoni_added_form) (int 0) =
     [''Tomato Sauce'', ''Mozzarella'', ''Tomatoes'', ''Basil'', ''Pepperoni''] \<and>
   default_toppings (oi_Pizza (o_Items pepperoni_added_order ! 0)) =
     [''Tomato Sauce'', ''Mozzarella'', ''Tomatoes'', ''Basil''] \<and>
   oi_Toppings (o_Items pepperoni_added_order ! 0) =
     [\<lparr>tp_ID = [], tp_OrderItemID = [], tp_Topping = ''Tomato Sauce'', tp_IsExtra = False\<rparr>,
      \<lparr>tp_ID = [], tp_OrderItemID = [], tp_Topping = ''Mozzarella'', tp_IsExtra = False\<rparr>,
      \<lparr>tp_ID = [], tp_OrderItemID = [], tp_Topping = ''Tomatoes'', tp_IsExtra = False\<rparr>,
      \<lparr>tp_ID = [], tp_OrderItemID = [], tp_Topping = ''Basil'', tp_IsExtra = False\<rparr>,
      \<lparr>tp_ID = [], tp_OrderItemID = [], tp_Topping = ''Pepperoni'', tp_IsExtra = True\<rparr>]"
proof -
  have a: "0 < length (o_Items pepperoni_added_order)"
    by (simp add: pepperoni_added_order_def ada_order_def)
  have t: "toppings_at (toppingsMap pepperoni_added_form) (int 0) =
     [''Tomato Sauce'', ''Mozzarella'', ''Tomatoes'', ''Basil'', ''Pepperoni'']"
    by code_simp
  have n: "[''Tomato Sauce'', ''Mozzarella'', ''Tomatoes'', ''Basil'', ''Pepperoni''] \<noteq> []"
    by simp
  have d: "default_toppings (oi_Pizza (o_Items pepperoni_added_order ! 0)) =
     [''Tomato Sauce'', ''Mozzarella'', ''Tomatoes'', ''Basil'']"
    using Margherita_defaults
    by (simp add: pepperoni_added_order_def ada_order_def margherita_item_def
        default_toppings_def)
  from extra_classification [OF pepperoni_added_build a t n] pepperoni_added_build a t d
  show ?thesis by simp
qed

text \<open>
  C9, replication of dietary requirements and allergies. Every item of a built order
  carries one dietary row per submitted dietary requirement and one allergy row per
  submitted allergy, in the order submitted; so any two items of the order carry equal
  collections.
\<close>

theorem dietary_allergy_replicated:
  assumes "build_order form = Inr ord"
    and "i < length (o_Items ord)" and "j < length (o_Items ord)"
  shows "oi_DietaryRequirement (o_Items ord ! i) =
           map (\<lambda>d. \<lparr>dr_ID = [], dr_OrderItemID = [], dr_DietaryRequirement = d\<rparr>)
             (rq_DietaryRequirements form) \<and>
         oi_Allergies (o_Items ord ! i) =
           map (\<lambda>a. \<lparr>al_ID = [], al_OrderItemID = [], al_Allergy = a\<rparr>) (rq_Allergies form) \<and>
         oi_DietaryRequirement (o_Items ord ! i) = oi_DietaryRequirement (o_Items ord ! j) \<and>
         oi_Allergies (o_Items ord ! i) = oi_Allergies (o_Items ord ! j)"
proof -
  have d: "dietary_row = (\<lambda>d. \<lparr>dr_ID = [], dr_OrderItemID = [], dr_DietaryRequirement = d\<rparr>)"
    by (rule ext) (simp add: dietary_row_def)
  have a: "allergy_row = (\<lambda>a. \<lparr>al_ID = [], al_OrderItemID = [], al_Allergy = a\<rparr>)"
    by (rule ext) (simp add: allergy_row_def)
  from build_order_item(4,5) [OF assms(1,2)] build_order_item(4,5) [OF assms(1,3)]
  show ?thesis by (simp add: d a)
qed

theorem dietary_allergy_replicated_witness:
  "(\<exists>ord. build_order two_pizza_form = Inr ord \<and> length (o_Items ord) = 2 \<and>
      oi_DietaryRequirement (o_Items ord ! 0) =
        [\<lparr>dr_ID = [], dr_OrderItemID = [], dr_DietaryRequirement = ''Vegan''\<rparr>,
         \<lparr>dr_ID = [], dr_OrderItemID = [], dr_DietaryRequirement = ''Halal''\<rparr>] \<and>
      oi_Allergies (o_Items ord ! 0) =
        [\<lparr>al_ID = [], al_OrderItemID = [], al_Allergy = ''Nuts''\<rparr>,
         \<lparr>al_ID = [], al_OrderItemID = [], al_Allergy = ''Soy''\<rparr>] \<and>
      oi_DietaryRequirement (o_Items ord ! 0) = oi_DietaryRequirement (o_Items ord ! 1) \<and>
      oi_Allergies (o_Items ord ! 0) = oi_Allergies (o_Items ord ! 1))"
proof -
  obtain ord where b: "build_order two_pizza_form = Inr ord"
    by (simp add: build_order_def two_pizza_form_def margherita_form_def make_item_def
        upt_rec [of 0])
  have l: "length (o_Items ord) = 2"
    using build_order_items(1) [OF b] by (simp add: two_pizza_form_def)
  then have i: "0 < length (o_Items ord)" and j: "1 < length (o_Items ord)" by simp_all
  from dietary_allergy_replicated [OF b i j] b l show ?thesis
    by (auto simp: two_pizza_form_def margherita_form_def)
qed

text \<open>
  C10, malformed topping entries. A submitted entry with no colon, or whose text before
  the first colon is not an integer, can be removed from the submission without changing
  the outcome of building the order (the order, or the panic): it adds no row and raises
  no error. The selection of every index is made of the labels of the remaining entries
  that parse to that index.
\<close>

theorem malformed_entries_dropped:
  assumes "malformed t"
  shows "build_order (form\<lparr>rq_Toppings := xs @ t # ys\<rparr>) =
           build_order (form\<lparr>rq_Toppings := xs @ ys\<rparr>) \<and>
         (\<forall>i. toppings_at (toppingsMap (form\<lparr>rq_Toppings := xs @ t # ys\<rparr>)) i =
                selection_of (xs @ ys) i)"
proof
  have d: "\<And>i. selection_of (xs @ t # ys) i = selection_of (xs @ ys) i"
    using malformed_entry_of [OF assms] by (rule selection_of_drop)
  show "build_order (form\<lparr>rq_Toppings := xs @ t # ys\<rparr>) =
           build_order (form\<lparr>rq_Toppings := xs @ ys\<rparr>)"
    by (rule build_order_cong) (simp_all add: d)
  show "\<forall>i. toppings_at (toppingsMap (form\<lparr>rq_Toppings := xs @ t # ys\<rparr>)) i =
                selection_of (xs @ ys) i"
    by (simp add: toppingsMap_selection d)
qed

theorem malformed_entries_dropped_witness:
  "malformed ''x:Ham'' \<and> malformed ''Ham'' \<and>
   build_order (margherita_form\<lparr>rq_Toppings := [''0:Basil''] @ ''x:Ham'' # [''Ham'']\<rparr>) =
     build_order (margherita_form\<lparr>rq_Toppings := [''0:Basil''] @ [''Ham'']\<rparr>) \<and>
   build_order (margherita_form\<lparr>rq_Toppings := [''0:Basil''] @ ''Ham'' # []\<rparr>) =
     build_order (margherita_form\<lparr>rq_Toppings := [''0:Basil''] @ []\<rparr>) \<and>
   build_order (margherita_form\<lparr>rq_Toppings := [''0:Basil'']\<rparr>) =
     Inr (ada_order [margherita_item [plain ''Basil'']])"
proof -
  have m1: "malformed ''x:Ham''"
    by (simp add: malformed_def integer_text_def is_digit_def)
  have m2: "malformed ''Ham''"
    by (simp add: malformed_def)
  have b: "build_order (margherita_form\<lparr>rq_Toppings := [''0:Basil'']\<rparr>) =
     Inr (ada_order [margherita_item [plain ''Basil'']])"
    by code_simp
  from malformed_entries_dropped
      [OF m1, where form = margherita_form and xs = "[''0:Basil'']" and ys = "[''Ham'']"]
    malformed_entries_dropped
      [OF m2, where form = margherita_form and xs = "[''0:Basil'']" and ys = "[]"] m1 m2 b
  show ?thesis by simp
qed

text \<open>
  C7, the crust of an item. The handler works out a crust for every item, but the item
  record has no field for it: two submissions that differ only in the crust chosen build
  the same order, so the crust is neither stored nor read back.
\<close>

theorem crust_not_stored:
  "crust_of (margherita_form\<lparr>rq_Crusts := [''Thin'']\<rparr>) 0 = ''Thin'' \<and>
   crust_of (margherita_form\<lparr>rq_Crusts := [''Deep Dish'']\<rparr>) 0 = ''Deep Dish'' \<and>
   build_order (margherita_form\<lparr>rq_Crusts := [''Thin'']\<rparr>) =
     build_order (margherita_form\<lparr>rq_Crusts := [''Deep Dish'']\<rparr>)"
proof -
  have "build_order (margherita_form\<lparr>rq_Crusts := [''Thin'']\<rparr>) =
     build_order (margherita_form\<lparr>rq_Crusts := [''Deep Dish'']\<rparr>)"
    by (rule build_order_cong) simp_all
  then show ?thesis by (simp add: crust_of_def)
qed

section \<open>Inserting a linked order and reading it back\<close>

lemma insert_rows_Inr:
  "insert_rows key tbl rows = Inr tbl' \<Longrightarrow>
   tbl' = tbl @ rows \<and> distinct (map key rows) \<and> (\<forall>r \<in> set rows. key r \<notin> key ` set tbl)"
  by (auto simp: insert_rows_def list_all_iff split: if_splits)


lemma find_snoc_new:
  "\<forall>x \<in> set xs. \<not> P x \<Longrightarrow> P y \<Longrightarrow> find P (xs @ [y]) = Some y"
  by (induction xs) auto



lemma upsert_keys:
  assumes "\<And>r row. key (adopt r row) = key r"
  shows "key ` set (upsert key adopt tbl row) = insert (key row) (key ` set tbl)"
proof (cases "key row \<in> key ` set tbl")
  case True
  have "key ` set (map (\<lambda>r. if key r = key row then adopt r row else r) tbl) = key ` set tbl"
    by (induction tbl) (simp_all add: assms)
  with True show ?thesis by (auto simp: upsert_def)
next
  case False
  then show ?thesis by (simp add: upsert_def)
qed

lemma upsert_rows_keys:
  assumes "\<And>r row. key (adopt r row) = key r"
  shows "key ` set (upsert_rows key adopt tbl rows) = key ` set tbl \<union> key ` set rows"
proof (induction rows arbitrary: tbl)
  case Nil
  show ?case by simp
next
  case (Cons row rows)
  show ?case
    by (simp add: Cons.IH upsert_keys [of key adopt, OF assms])
qed

lemma upsert_owner:
  assumes "\<And>r row. fk (adopt r row) = fk row"
  shows "fk ` set (upsert key adopt tbl row) \<subseteq> insert (fk row) (fk ` set tbl)"
  by (auto simp: upsert_def assms)

lemma upsert_rows_owner:
  assumes "\<And>r row. fk (adopt r row) = fk row"
  shows "fk ` set (upsert_rows key adopt tbl rows) \<subseteq> fk ` set tbl \<union> fk ` set rows"
proof (induction rows arbitrary: tbl)
  case Nil
  show ?case by simp
next
  case (Cons row rows)
  have "fk ` set (upsert_rows key adopt (upsert key adopt tbl row) rows) \<subseteq>
        fk ` set (upsert key adopt tbl row) \<union> fk ` set rows"
    by (rule Cons.IH)
  also have "\<dots> \<subseteq> insert (fk row) (fk ` set tbl) \<union> fk ` set rows"
    using upsert_owner [of fk adopt key tbl row, OF assms] by blast
  finally show ?case by auto
qed

lemma insert_graph_header:
  assumes "insert_graph db ord = Inr db'"
  shows "orders db' = orders db @ [order_row ord]"
    and "o_ID ord \<notin> o_ID ` set (orders db)"
    and "order_items db' =
           upsert_rows oi_ID adopt_item (order_items db) (map item_row (o_Items ord))"
    and "order_item_dietary_requirements db' =
           upsert_rows dr_ID adopt_dietary (order_item_dietary_requirements db)
             (concat (map oi_DietaryRequirement (o_Items ord)))"
    and "order_item_toppings db' =
           upsert_rows tp_ID adopt_topping (order_item_toppings db)
             (concat (map oi_Toppings (o_Items ord)))"
    and "order_item_allergies db' =
           upsert_rows al_ID adopt_allergy (order_item_allergies db)
             (concat (map oi_Allergies (o_Items ord)))"
proof -
  from assms obtain os where
    a: "insert_rows o_ID (orders db) [order_row ord] = Inr os"
    and f: "db' = \<lparr>orders = os,
               order_items =
                 upsert_rows oi_ID adopt_item (order_items db) (map item_row (o_Items ord)),
               order_item_dietary_requirements =
                 upsert_rows dr_ID adopt_dietary (order_item_dietary_requirements db)
                   (concat (map oi_DietaryRequirement (o_Items ord))),
               order_item_toppings =
                 upsert_rows tp_ID adopt_topping (order_item_toppings db)
                   (concat (map oi_Toppings (o_Items ord))),
               order_item_allergies =
                 upsert_rows al_ID adopt_allergy (order_item_allergies db)
                   (concat (map oi_Allergies (o_Items ord)))\<rparr>"
    by (auto simp: insert_graph_def split: sum.splits)
  from insert_rows_Inr [OF a] f show "orders db' = orders db @ [order_row ord]" by simp
  from insert_rows_Inr [OF a] show "o_ID ord \<notin> o_ID ` set (orders db)"
    by (simp add: order_row_def)
  from f show "order_items db' =
           upsert_rows oi_ID adopt_item (order_items db) (map item_row (o_Items ord))"
    by simp
  from f show "order_item_dietary_requirements db' =
           upsert_rows dr_ID adopt_dietary (order_item_dietary_requirements db)
             (concat (map oi_DietaryRequirement (o_Items ord)))"
    by simp
  from f show "order_item_toppings db' =
           upsert_rows tp_ID adopt_topping (order_item_toppings db)
             (concat (map oi_Toppings (o_Items ord)))"
    by simp
  from f show "order_item_allergies db' =
           upsert_rows al_ID adopt_allergy (order_item_allergies db)
             (concat (map oi_Allergies (o_Items ord)))"
    by simp
qed




lemma empty_DB_referential: "referential empty_DB"
  by (simp add: referential_def empty_DB_def)

lemma insert_graph_referential:
  assumes r: "referential db" and l: "linked ord" and g: "insert_graph db ord = Inr db'"
  shows "referential db'"
proof -
  note H = insert_graph_header [OF g]
  from l have lo: "\<forall>x \<in> set (o_Items ord). oi_OrderID x = o_ID ord"
    and li: "\<forall>x \<in> set (o_Items ord). linked_item x"
    by (simp_all add: linked_def)
  have o: "o_ID ` set (orders db') = insert (o_ID ord) (o_ID ` set (orders db))"
    by (simp add: H(1) order_row_def)
  have "oi_ID \<circ> item_row = oi_ID"
    by (rule ext) (simp add: item_row_def)
  then have i: "oi_ID ` set (order_items db') =
      oi_ID ` set (order_items db) \<union> oi_ID ` set (o_Items ord)"
    unfolding H(3)
    by (subst upsert_rows_keys) (simp_all add: adopt_item_def image_comp)
  have a: "\<forall>it \<in> set (order_items db'). oi_OrderID it \<in> o_ID ` set (orders db')"
  proof -
    have "oi_OrderID ` set (order_items db') \<subseteq>
          oi_OrderID ` set (order_items db) \<union> oi_OrderID ` set (map item_row (o_Items ord))"
      unfolding H(3) by (rule upsert_rows_owner) (simp add: adopt_item_def)
    moreover have "oi_OrderID ` set (order_items db) \<subseteq> o_ID ` set (orders db)"
      using r by (auto simp: referential_def)
    moreover have "oi_OrderID ` set (map item_row (o_Items ord)) \<subseteq> {o_ID ord}"
      using lo by (auto simp: item_row_def)
    ultimately show ?thesis unfolding o by blast
  qed
  have b: "\<forall>d \<in> set (order_item_dietary_requirements db').
         dr_OrderItemID d \<in> oi_ID ` set (order_items db')"
  proof -
    have "dr_OrderItemID ` set (order_item_dietary_requirements db') \<subseteq>
          dr_OrderItemID ` set (order_item_dietary_requirements db) \<union>
          dr_OrderItemID ` set (concat (map oi_DietaryRequirement (o_Items ord)))"
      unfolding H(4) by (rule upsert_rows_owner) (simp add: adopt_dietary_def)
    moreover have "dr_OrderItemID ` set (order_item_dietary_requirements db) \<subseteq>
          oi_ID ` set (order_items db)"
      using r by (auto simp: referential_def)
    moreover have "dr_OrderItemID ` set (concat (map oi_DietaryRequirement (o_Items ord))) \<subseteq>
          oi_ID ` set (o_Items ord)"
      using li by (auto simp: linked_item_def)
    ultimately show ?thesis unfolding i by blast
  qed
  have c: "\<forall>t \<in> set (order_item_toppings db').
         tp_OrderItemID t \<in> oi_ID ` set (order_items db')"
  proof -
    have "tp_OrderItemID ` set (order_item_toppings db') \<subseteq>
          tp_OrderItemID ` set (order_item_toppings db) \<union>
          tp_OrderItemID ` set (concat (map oi_Toppings (o_Items ord)))"
      unfolding H(5) by (rule upsert_rows_owner) (simp add: adopt_topping_def)
    moreover have "tp_OrderItemID ` set (order_item_toppings db) \<subseteq>
          oi_ID ` set (order_items db)"
      using r by (auto simp: referential_def)
    moreover have "tp_OrderItemID ` set (concat (map oi_Toppings (o_Items ord))) \<subseteq>
          oi_ID ` set (o_Items ord)"
      using li by (auto simp: linked_item_def)
    ultimately show ?thesis unfolding i by blast
  qed
  have d: "\<forall>a \<in> set (order_item_allergies db').
         al_OrderItemID a \<in> oi_ID ` set (order_items db')"
  proof -
    have "al_OrderItemID ` set (order_item_allergies db') \<subseteq>
          al_OrderItemID ` set (order_item_allergies db) \<union>
          al_OrderItemID ` set (concat (map oi_Allergies (o_Items ord)))"
      unfolding H(6) by (rule upsert_rows_owner) (simp add: adopt_allergy_def)
    moreover have "al_OrderItemID ` set (order_item_allergies db) \<subseteq>
          oi_ID ` set (order_items db)"
      using r by (auto simp: referential_def)
    moreover have "al_OrderItemID ` set (concat (map oi_Allergies (o_Items ord))) \<subseteq>
          oi_ID ` set (o_Items ord)"
      using li by (auto simp: linked_item_def)
    ultimately show ?thesis unfolding i by blast
  qed
  from a b c d show ?thesis by (simp add: referential_def)
qed

section \<open>The pass of the hooks\<close>

lemma kept_or_generated_mono:
  "kept_or_generated shortid b old new \<Longrightarrow> b \<le> b' \<Longrightarrow> kept_or_generated shortid b' old new"
  by (auto simp: kept_or_generated_def split: if_splits)

lemma hooks_all2:
  assumes step: "\<And>x n x' n'. x \<in> set xs \<Longrightarrow> h x n = (x', n') \<Longrightarrow> n \<le> n' \<and> R n' x x'"
    and widen: "\<And>b b' x x'. R b x x' \<Longrightarrow> b \<le> b' \<Longrightarrow> R b' x x'"
    and run: "hooks h xs n = (xs', n')"
  shows "n \<le> n' \<and> list_all2 (R n') xs xs'"
  using step run
proof (induction xs arbitrary: n xs' n')
  case Nil
  then show ?case by simp
next
  case (Cons x xs)
  from Cons.prems(2) obtain y n1 ys where
    h: "h x n = (y, n1)" and r: "hooks h xs n1 = (ys, n')" and e: "xs' = y # ys"
    by (auto split: prod.splits)
  from Cons.prems(1) [OF _ h] have a: "n \<le> n1" "R n1 x y" by simp_all
  have "n1 \<le> n' \<and> list_all2 (R n') xs ys"
    by (rule Cons.IH [OF _ r]) (rule Cons.prems(1), simp_all)
  with a e widen [of n1 x y n'] show ?case by simp
qed

lemma Order_BeforeCreate_fact:
  "Order_BeforeCreate shortid ord n = (ord', n') \<Longrightarrow>
   n \<le> n' \<and> (\<exists>v. ord' = ord\<lparr>o_ID := v\<rparr> \<and> kept_or_generated shortid n' (o_ID ord) v)"
  by (auto simp: Order_BeforeCreate_def kept_or_generated_def split: if_splits)

lemma OrderItem_BeforeCreate_fact:
  "OrderItem_BeforeCreate shortid it n = (it', n') \<Longrightarrow>
   n \<le> n' \<and> (\<exists>v. it' = it\<lparr>oi_ID := v\<rparr> \<and> kept_or_generated shortid n' (oi_ID it) v)"
  by (auto simp: OrderItem_BeforeCreate_def kept_or_generated_def split: if_splits)

lemma OrderItemDietaryRequirement_BeforeCreate_fact:
  "OrderItemDietaryRequirement_BeforeCreate shortid d n = (d', n') \<Longrightarrow>
   n \<le> n' \<and> (\<exists>v. d' = d\<lparr>dr_ID := v\<rparr> \<and> kept_or_generated shortid n' (dr_ID d) v)"
  by (auto simp: OrderItemDietaryRequirement_BeforeCreate_def kept_or_generated_def
      split: if_splits)

lemma OrderItemTopping_BeforeCreate_fact:
  "OrderItemTopping_BeforeCreate shortid t n = (t', n') \<Longrightarrow>
   n \<le> n' \<and> (\<exists>v. t' = t\<lparr>tp_ID := v\<rparr> \<and> kept_or_generated shortid n' (tp_ID t) v)"
  by (auto simp: OrderItemTopping_BeforeCreate_def kept_or_generated_def split: if_splits)

lemma OrderItemAllergy_BeforeCreate_fact:
  "OrderItemAllergy_BeforeCreate shortid a n = (a', n') \<Longrightarrow>
   n \<le> n' \<and> (\<exists>v. a' = a\<lparr>al_ID := v\<rparr> \<and> kept_or_generated shortid n' (al_ID a) v)"
  by (auto simp: OrderItemAllergy_BeforeCreate_def kept_or_generated_def split: if_splits)

lemma dietary_pass_fact:
  assumes "dietary_pass shortid it n = (it', n')"
  shows "n \<le> n' \<and> dietary_done shortid n' it it'"
proof -
  from assms obtain rows where
    h: "hooks (OrderItemDietaryRequirement_BeforeCreate shortid)
          (map (\<lambda>d. d\<lparr>dr_OrderItemID := oi_ID it\<rparr>) (oi_DietaryRequirement it)) n = (rows, n')"
    and e: "it' = it\<lparr>oi_DietaryRequirement := rows\<rparr>"
    by (auto simp: dietary_pass_def split: prod.splits)
  have "n \<le> n' \<and>
    list_all2 (\<lambda>d d'. \<exists>v. d' = d\<lparr>dr_ID := v\<rparr> \<and> kept_or_generated shortid n' (dr_ID d) v)
      (map (\<lambda>d. d\<lparr>dr_OrderItemID := oi_ID it\<rparr>) (oi_DietaryRequirement it)) rows"
    by (rule hooks_all2 [OF _ _ h])
      (auto dest: OrderItemDietaryRequirement_BeforeCreate_fact kept_or_generated_mono)
  then show ?thesis
    using e by (auto simp: dietary_done_def list_all2_map1)
qed

lemma toppings_pass_fact:
  assumes "toppings_pass shortid it n = (it', n')"
  shows "n \<le> n' \<and> toppings_done shortid n' it it'"
proof -
  from assms obtain rows where
    h: "hooks (OrderItemTopping_BeforeCreate shortid)
          (map (\<lambda>t. t\<lparr>tp_OrderItemID := oi_ID it\<rparr>) (oi_Toppings it)) n = (rows, n')"
    and e: "it' = it\<lparr>oi_Toppings := rows\<rparr>"
    by (auto simp: toppings_pass_def split: prod.splits)
  have "n \<le> n' \<and>
    list_all2 (\<lambda>t t'. \<exists>v. t' = t\<lparr>tp_ID := v\<rparr> \<and> kept_or_generated shortid n' (tp_ID t) v)
      (map (\<lambda>t. t\<lparr>tp_OrderItemID := oi_ID it\<rparr>) (oi_Toppings it)) rows"
    by (rule hooks_all2 [OF _ _ h])
      (auto dest: OrderItemTopping_BeforeCreate_fact kept_or_generated_mono)
  then show ?thesis
    using e by (auto simp: toppings_done_def list_all2_map1)
qed

lemma allergies_pass_fact:
  assumes "allergies_pass shortid it n = (it', n')"
  shows "n \<le> n' \<and> allergies_done shortid n' it it'"
proof -
  from assms obtain rows where
    h: "hooks (OrderItemAllergy_BeforeCreate shortid)
          (map (\<lambda>a. a\<lparr>al_OrderItemID := oi_ID it\<rparr>) (oi_Allergies it)) n = (rows, n')"
    and e: "it' = it\<lparr>oi_Allergies := rows\<rparr>"
    by (auto simp: allergies_pass_def split: prod.splits)
  have "n \<le> n' \<and>
    list_all2 (\<lambda>a a'. \<exists>v. a' = a\<lparr>al_ID := v\<rparr> \<and> kept_or_generated shortid n' (al_ID a) v)
      (map (\<lambda>a. a\<lparr>al_OrderItemID := oi_ID it\<rparr>) (oi_Allergies it)) rows"
    by (rule hooks_all2 [OF _ _ h])
      (auto dest: OrderItemAllergy_BeforeCreate_fact kept_or_generated_mono)
  then show ?thesis
    using e by (auto simp: allergies_done_def list_all2_map1)
qed

lemma dietary_done_mono:
  assumes "dietary_done shortid b it it'" and "b \<le> b'"
  shows "dietary_done shortid b' it it'"
proof -
  from assms(1) obtain rows where e: "it' = it\<lparr>oi_DietaryRequirement := rows\<rparr>"
    and l: "list_all2 (\<lambda>d d'. \<exists>v. d' = d\<lparr>dr_OrderItemID := oi_ID it, dr_ID := v\<rparr> \<and>
                     kept_or_generated shortid b (dr_ID d) v)
          (oi_DietaryRequirement it) rows"
    unfolding dietary_done_def by blast
  from l have "list_all2 (\<lambda>d d'. \<exists>v. d' = d\<lparr>dr_OrderItemID := oi_ID it, dr_ID := v\<rparr> \<and>
                     kept_or_generated shortid b' (dr_ID d) v)
          (oi_DietaryRequirement it) rows"
    by (rule list_all2_mono) (use assms(2) in \<open>auto dest: kept_or_generated_mono\<close>)
  with e show ?thesis unfolding dietary_done_def by blast
qed

lemma toppings_done_mono:
  assumes "toppings_done shortid b it it'" and "b \<le> b'"
  shows "toppings_done shortid b' it it'"
proof -
  from assms(1) obtain rows where e: "it' = it\<lparr>oi_Toppings := rows\<rparr>"
    and l: "list_all2 (\<lambda>t t'. \<exists>v. t' = t\<lparr>tp_OrderItemID := oi_ID it, tp_ID := v\<rparr> \<and>
                     kept_or_generated shortid b (tp_ID t) v)
          (oi_Toppings it) rows"
    unfolding toppings_done_def by blast
  from l have "list_all2 (\<lambda>t t'. \<exists>v. t' = t\<lparr>tp_OrderItemID := oi_ID it, tp_ID := v\<rparr> \<and>
                     kept_or_generated shortid b' (tp_ID t) v)
          (oi_Toppings it) rows"
    by (rule list_all2_mono) (use assms(2) in \<open>auto dest: kept_or_generated_mono\<close>)
  with e show ?thesis unfolding toppings_done_def by blast
qed

lemma allergies_done_mono:
  assumes "allergies_done shortid b it it'" and "b \<le> b'"
  shows "allergies_done shortid b' it it'"
proof -
  from assms(1) obtain rows where e: "it' = it\<lparr>oi_Allergies := rows\<rparr>"
    and l: "list_all2 (\<lambda>a a'. \<exists>v. a' = a\<lparr>al_OrderItemID := oi_ID it, al_ID := v\<rparr> \<and>
                     kept_or_generated shortid b (al_ID a) v)
          (oi_Allergies it) rows"
    unfolding allergies_done_def by blast
  from l have "list_all2 (\<lambda>a a'. \<exists>v. a' = a\<lparr>al_OrderItemID := oi_ID it, al_ID := v\<rparr> \<and>
                     kept_or_generated shortid b' (al_ID a) v)
          (oi_Allergies it) rows"
    by (rule list_all2_mono) (use assms(2) in \<open>auto dest: kept_or_generated_mono\<close>)
  with e show ?thesis unfolding allergies_done_def by blast
qed

lemma assigned_item_chain:
  assumes p1: "\<exists>v. it1 = it\<lparr>oi_OrderID := owner, oi_ID := v\<rparr> \<and>
                 kept_or_generated shortid n (oi_ID it) v"
    and p2: "dietary_done shortid n it1 it2"
    and p3: "toppings_done shortid n it2 it3"
    and p4: "allergies_done shortid n it3 it4"
  shows "assigned_item shortid n owner it it4"
proof -
  from p1 obtain v where
    e1: "it1 = it\<lparr>oi_OrderID := owner, oi_ID := v\<rparr>" and k: "kept_or_generated shortid n (oi_ID it) v"
    by blast
  from p2 obtain ds where e2: "it2 = it1\<lparr>oi_DietaryRequirement := ds\<rparr>"
    and d: "list_all2 (\<lambda>d d'. \<exists>v. d' = d\<lparr>dr_OrderItemID := oi_ID it1, dr_ID := v\<rparr> \<and>
                     kept_or_generated shortid n (dr_ID d) v) (oi_DietaryRequirement it1) ds"
    unfolding dietary_done_def by blast
  from p3 obtain ts where e3: "it3 = it2\<lparr>oi_Toppings := ts\<rparr>"
    and t: "list_all2 (\<lambda>t t'. \<exists>v. t' = t\<lparr>tp_OrderItemID := oi_ID it2, tp_ID := v\<rparr> \<and>
                     kept_or_generated shortid n (tp_ID t) v) (oi_Toppings it2) ts"
    unfolding toppings_done_def by blast
  from p4 obtain as where e4: "it4 = it3\<lparr>oi_Allergies := as\<rparr>"
    and a: "list_all2 (\<lambda>a a'. \<exists>v. a' = a\<lparr>al_OrderItemID := oi_ID it3, al_ID := v\<rparr> \<and>
                     kept_or_generated shortid n (al_ID a) v) (oi_Allergies it3) as"
    unfolding allergies_done_def by blast
  have f: "it4 = it\<lparr>oi_OrderID := owner, oi_ID := v, oi_DietaryRequirement := ds,
                   oi_Toppings := ts, oi_Allergies := as\<rparr>"
    by (simp add: e1 e2 e3 e4)
  have d': "list_all2 (\<lambda>d d'. dr_DietaryRequirement d' = dr_DietaryRequirement d \<and>
                   dr_OrderItemID d' = v \<and> kept_or_generated shortid n (dr_ID d) (dr_ID d'))
        (oi_DietaryRequirement it) ds"
  proof -
    have "oi_DietaryRequirement it1 = oi_DietaryRequirement it" "oi_ID it1 = v"
      by (simp_all add: e1)
    with d show ?thesis by (auto elim!: list_all2_mono)
  qed
  have t': "list_all2 (\<lambda>t t'. tp_Topping t' = tp_Topping t \<and> tp_IsExtra t' = tp_IsExtra t \<and>
                   tp_OrderItemID t' = v \<and> kept_or_generated shortid n (tp_ID t) (tp_ID t'))
        (oi_Toppings it) ts"
  proof -
    have "oi_Toppings it2 = oi_Toppings it" "oi_ID it2 = v" by (simp_all add: e1 e2)
    with t show ?thesis by (auto elim!: list_all2_mono)
  qed
  have a': "list_all2 (\<lambda>a a'. al_Allergy a' = al_Allergy a \<and> al_OrderItemID a' = v \<and>
                   kept_or_generated shortid n (al_ID a) (al_ID a'))
        (oi_Allergies it) as"
  proof -
    have "oi_Allergies it3 = oi_Allergies it" "oi_ID it3 = v" by (simp_all add: e1 e2 e3)
    with a show ?thesis by (auto elim!: list_all2_mono)
  qed
  show ?thesis
    unfolding assigned_item_def f using k d' t' a' by simp
qed




lemma assign_ids_fact:
  assumes "assign_ids shortid now ord = (ord', n)"
  shows "o_Status ord' = o_Status ord" and "o_CustomerName ord' = o_CustomerName ord"
    and "o_Phone ord' = o_Phone ord" and "o_Address ord' = o_Address ord"
    and "o_CreatedAt ord' = (if o_CreatedAt ord = 0 then now else o_CreatedAt ord)"
    and "kept_or_generated shortid n (o_ID ord) (o_ID ord')"
    and "list_all2 (assigned_item shortid n (o_ID ord')) (o_Items ord) (o_Items ord')"
proof -
  from assms obtain o1 n1 its1 n2 its2 n3 its3 n4 its4 where
    h0: "Order_BeforeCreate shortid ord 0 = (o1, n1)"
    and h1: "hooks (OrderItem_BeforeCreate shortid)
               (map (\<lambda>it. it\<lparr>oi_OrderID := o_ID o1\<rparr>) (o_Items o1)) n1 = (its1, n2)"
    and h2: "hooks (dietary_pass shortid) its1 n2 = (its2, n3)"
    and h3: "hooks (toppings_pass shortid) its2 n3 = (its3, n4)"
    and h4: "hooks (allergies_pass shortid) its3 n4 = (its4, n)"
    and e: "ord' = o1\<lparr>o_CreatedAt := (if o_CreatedAt o1 = 0 then now else o_CreatedAt o1),
                      o_Items := its4\<rparr>"
    by (auto simp: assign_ids_def split: prod.splits)
  from Order_BeforeCreate_fact [OF h0] obtain v where
    o1: "o1 = ord\<lparr>o_ID := v\<rparr>" and kv: "kept_or_generated shortid n1 (o_ID ord) v"
    by blast
  have r1: "n1 \<le> n2 \<and>
    list_all2 (\<lambda>x x'. \<exists>v. x' = x\<lparr>oi_ID := v\<rparr> \<and> kept_or_generated shortid n2 (oi_ID x) v)
      (map (\<lambda>it. it\<lparr>oi_OrderID := o_ID o1\<rparr>) (o_Items o1)) its1"
    by (rule hooks_all2 [OF _ _ h1])
      (auto dest: OrderItem_BeforeCreate_fact kept_or_generated_mono)
  have r2: "n2 \<le> n3 \<and> list_all2 (dietary_done shortid n3) its1 its2"
    by (rule hooks_all2 [OF _ _ h2]) (auto dest: dietary_pass_fact dietary_done_mono)
  have r3: "n3 \<le> n4 \<and> list_all2 (toppings_done shortid n4) its2 its3"
    by (rule hooks_all2 [OF _ _ h3]) (auto dest: toppings_pass_fact toppings_done_mono)
  have r4: "n4 \<le> n \<and> list_all2 (allergies_done shortid n) its3 its4"
    by (rule hooks_all2 [OF _ _ h4]) (auto dest: allergies_pass_fact allergies_done_mono)
  from r1 r2 r3 r4 have le: "n1 \<le> n" "n2 \<le> n" "n3 \<le> n" "n4 \<le> n" by simp_all
  show "o_Status ord' = o_Status ord" "o_CustomerName ord' = o_CustomerName ord"
    "o_Phone ord' = o_Phone ord" "o_Address ord' = o_Address ord"
    "o_CreatedAt ord' = (if o_CreatedAt ord = 0 then now else o_CreatedAt ord)"
    by (simp_all add: e o1)
  have id': "o_ID ord' = v" by (simp add: e o1)
  show "kept_or_generated shortid n (o_ID ord) (o_ID ord')"
    using kept_or_generated_mono [OF kv le(1)] id' by simp
  have items: "o_Items ord' = its4" by (simp add: e)
  have len: "length its1 = length (o_Items ord)" "length its2 = length its1"
    "length its3 = length its2" "length its4 = length its3"
    using r1 r2 r3 r4 by (auto dest: list_all2_lengthD simp: o1)
  show "list_all2 (assigned_item shortid n (o_ID ord')) (o_Items ord) (o_Items ord')"
    unfolding items id'
  proof (rule list_all2_all_nthI)
    show "length (o_Items ord) = length its4" using len by simp
  next
    fix i assume i: "i < length (o_Items ord)"
    have p1: "\<exists>w. its1 ! i = (o_Items ord ! i)\<lparr>oi_OrderID := v, oi_ID := w\<rparr> \<and>
                 kept_or_generated shortid n (oi_ID (o_Items ord ! i)) w"
    proof -
      from r1 i have "\<exists>w. its1 ! i = ((o_Items ord ! i)\<lparr>oi_OrderID := v\<rparr>)\<lparr>oi_ID := w\<rparr> \<and>
          kept_or_generated shortid n2 (oi_ID ((o_Items ord ! i)\<lparr>oi_OrderID := v\<rparr>)) w"
        by (auto simp: o1 list_all2_conv_all_nth)
      then show ?thesis
        using le(2) by (auto dest: kept_or_generated_mono)
    qed
    have p2: "dietary_done shortid n (its1 ! i) (its2 ! i)"
      using r2 i len le(3) by (auto simp: list_all2_conv_all_nth dest: dietary_done_mono)
    have p3: "toppings_done shortid n (its2 ! i) (its3 ! i)"
      using r3 i len le(4) by (auto simp: list_all2_conv_all_nth dest: toppings_done_mono)
    have p4: "allergies_done shortid n (its3 ! i) (its4 ! i)"
      using r4 i len by (auto simp: list_all2_conv_all_nth)
    show "assigned_item shortid n v (o_Items ord ! i) (its4 ! i)"
      by (rule assigned_item_chain [OF p1 p2 p3 p4])
  qed
qed






lemma assigned_item_linked:
  assumes "assigned_item shortid n owner it it'"
  shows "oi_OrderID it' = owner \<and> linked_item it'"
  using assms unfolding assigned_item_def linked_item_def
  by (auto simp: list_all2_conv_all_nth in_set_conv_nth)


lemma assign_ids_linked:
  assumes "assign_ids shortid now ord = (ord', n)"
  shows "linked ord'"
  unfolding linked_def
proof
  fix it' assume "it' \<in> set (o_Items ord')"
  then obtain i where i: "i < length (o_Items ord')" and e: "it' = o_Items ord' ! i"
    by (auto simp: in_set_conv_nth)
  from assign_ids_fact(7) [OF assms] i
  have "assigned_item shortid n (o_ID ord') (o_Items ord ! i) (o_Items ord' ! i)"
    by (simp add: list_all2_conv_all_nth)
  from assigned_item_linked [OF this] e
  show "oi_OrderID it' = o_ID ord' \<and> linked_item it'" by simp
qed

section \<open>Properties of the repository\<close>

lemma CreateOrder_Inr:
  assumes "CreateOrder shortid now db ord = Inr (db', ord')"
  shows "assign_ids shortid now ord = (ord', snd (assign_ids shortid now ord))"
    and "insert_graph db ord' = Inr db'"
  using assms by (auto simp: CreateOrder_def split: prod.splits sum.splits)

lemma CreateOrder_referential:
  assumes "referential db" "CreateOrder shortid now db ord = Inr (db', ord')"
  shows "referential db'"
  using CreateOrder_Inr [OF assms(2)] assms(1)
  by (blast intro: insert_graph_referential assign_ids_linked)

lemma GetOrder_header:
  assumes "insert_graph db ord = Inr db'"
  shows "\<exists>its. GetOrder db' (o_ID ord) = (ord\<lparr>o_Items := its\<rparr>, None)"
proof -
  note H = insert_graph_header [OF assms]
  have "\<forall>row \<in> set (orders db). o_ID row \<noteq> o_ID ord"
    using H(2) by (metis imageI)
  then have "find (\<lambda>row. o_ID row = o_ID ord) (orders db') = Some (order_row ord)"
    unfolding H(1) by (intro find_snoc_new) (simp_all add: order_row_def)
  then have "GetOrder db' (o_ID ord) =
      (ord\<lparr>o_Items := map (preload_item db')
         (filter (\<lambda>it. oi_OrderID it = o_ID ord) (order_items db'))\<rparr>, None)"
    by (simp add: GetOrder_def order_row_def)
  then show ?thesis by blast
qed

lemma GetOrder_found:
  assumes "\<exists>row \<in> set (orders db). o_ID row = ident"
  shows "snd (GetOrder db ident) = None \<and> o_ID (fst (GetOrder db ident)) = ident"
proof -
  from assms obtain row where "find (\<lambda>row. o_ID row = ident) (orders db) = Some row"
    by (cases "find (\<lambda>row. o_ID row = ident) (orders db)") (auto simp: find_None_iff)
  moreover from this have "o_ID row = ident" by (auto simp: find_Some_iff)
  ultimately show ?thesis by (simp add: GetOrder_def)
qed




lemma build_order_no_ids:
  assumes "build_order form = Inr ord"
  shows "o_ID ord = []"
    and "\<forall>it \<in> set (o_Items ord). oi_ID it = [] \<and>
           (\<forall>d \<in> set (oi_DietaryRequirement it). dr_ID d = []) \<and>
           (\<forall>t \<in> set (oi_Toppings it). tp_ID t = []) \<and>
           (\<forall>a \<in> set (oi_Allergies it). al_ID a = [])"
proof -
  from assms show "o_ID ord = []"
    by (auto simp: build_order_def split: sum.splits)
  show "\<forall>it \<in> set (o_Items ord). oi_ID it = [] \<and>
           (\<forall>d \<in> set (oi_DietaryRequirement it). dr_ID d = []) \<and>
           (\<forall>t \<in> set (oi_Toppings it). tp_ID t = []) \<and>
           (\<forall>a \<in> set (oi_Allergies it). al_ID a = [])"
  proof
    fix it assume "it \<in> set (o_Items ord)"
    then obtain i where i: "i < length (o_Items ord)" and e: "it = o_Items ord ! i"
      by (auto simp: in_set_conv_nth)
    from build_order_items [OF assms] i have "make_item form i = Inr (o_Items ord ! i)"
      by simp
    with e have "make_item form i = Inr it" by simp
    then show "oi_ID it = [] \<and>
           (\<forall>d \<in> set (oi_DietaryRequirement it). dr_ID d = []) \<and>
           (\<forall>t \<in> set (oi_Toppings it). tp_ID t = []) \<and>
           (\<forall>a \<in> set (oi_Allergies it). al_ID a = [])"
      by (auto simp: make_item_def dietary_row_def topping_row_def allergy_row_def
          split: if_splits)
  qed
qed

lemma all_generated:
  assumes "list_all2 (\<lambda>x y. kept_or_generated shortid n (f x) (g y)) xs ys"
    and "\<forall>x \<in> set xs. f x = []"
  shows "\<forall>y \<in> set ys. g y \<in> shortid ` {..<n}"
proof
  fix y assume "y \<in> set ys"
  then obtain i where i: "i < length ys" and e: "y = ys ! i"
    by (auto simp: in_set_conv_nth)
  from assms(1) i have l: "i < length xs"
    and k: "kept_or_generated shortid n (f (xs ! i)) (g (ys ! i))"
    by (simp_all add: list_all2_conv_all_nth)
  from l assms(2) have "f (xs ! i) = []" by simp
  with k e show "g y \<in> shortid ` {..<n}" by (simp add: kept_or_generated_def)
qed

text \<open>
  C6 as the code has it. After a successful \<open>CreateOrder\<close> the identifier of the order,
  of each item and of each row of each item is the one the input carried when that was
  not empty, and otherwise a value taken from the generator during the call. An order
  built by the submission handler has no identifier anywhere, so after \<open>CreateOrder\<close>
  every identifier in it is a value taken from the generator.
\<close>

theorem identifiers_kept_or_generated:
  assumes "CreateOrder shortid now db G = Inr (db', G')"
    and "n = snd (assign_ids shortid now G)"
  shows "kept_or_generated shortid n (o_ID G) (o_ID G') \<and>
         list_all2
           (\<lambda>it it'.
              kept_or_generated shortid n (oi_ID it) (oi_ID it') \<and>
              list_all2 (\<lambda>d d'. kept_or_generated shortid n (dr_ID d) (dr_ID d'))
                (oi_DietaryRequirement it) (oi_DietaryRequirement it') \<and>
              list_all2 (\<lambda>t t'. kept_or_generated shortid n (tp_ID t) (tp_ID t'))
                (oi_Toppings it) (oi_Toppings it') \<and>
              list_all2 (\<lambda>a a'. kept_or_generated shortid n (al_ID a) (al_ID a'))
                (oi_Allergies it) (oi_Allergies it'))
           (o_Items G) (o_Items G') \<and>
         (build_order form = Inr G \<longrightarrow>
            o_ID G' \<in> shortid ` {..<n} \<and>
            (\<forall>it' \<in> set (o_Items G').
               oi_ID it' \<in> shortid ` {..<n} \<and>
               (\<forall>d \<in> set (oi_DietaryRequirement it'). dr_ID d \<in> shortid ` {..<n}) \<and>
               (\<forall>t \<in> set (oi_Toppings it'). tp_ID t \<in> shortid ` {..<n}) \<and>
               (\<forall>a \<in> set (oi_Allergies it'). al_ID a \<in> shortid ` {..<n})))"
proof -
  from CreateOrder_Inr(1) [OF assms(1)] assms(2)
  have a: "assign_ids shortid now G = (G', n)" by simp
  note F = assign_ids_fact [OF a]
  from F(7) have items: "list_all2
           (\<lambda>it it'.
              kept_or_generated shortid n (oi_ID it) (oi_ID it') \<and>
              list_all2 (\<lambda>d d'. kept_or_generated shortid n (dr_ID d) (dr_ID d'))
                (oi_DietaryRequirement it) (oi_DietaryRequirement it') \<and>
              list_all2 (\<lambda>t t'. kept_or_generated shortid n (tp_ID t) (tp_ID t'))
                (oi_Toppings it) (oi_Toppings it') \<and>
              list_all2 (\<lambda>a a'. kept_or_generated shortid n (al_ID a) (al_ID a'))
                (oi_Allergies it) (oi_Allergies it'))
           (o_Items G) (o_Items G')"
    by (rule list_all2_mono) (auto simp: assigned_item_def elim!: list_all2_mono)
  have built: "o_ID G' \<in> shortid ` {..<n} \<and>
            (\<forall>it' \<in> set (o_Items G').
               oi_ID it' \<in> shortid ` {..<n} \<and>
               (\<forall>d \<in> set (oi_DietaryRequirement it'). dr_ID d \<in> shortid ` {..<n}) \<and>
               (\<forall>t \<in> set (oi_Toppings it'). tp_ID t \<in> shortid ` {..<n}) \<and>
               (\<forall>a \<in> set (oi_Allergies it'). al_ID a \<in> shortid ` {..<n}))"
    if b: "build_order form = Inr G"
  proof
    note N = build_order_no_ids [OF b]
    from F(6) N(1) show "o_ID G' \<in> shortid ` {..<n}"
      by (simp add: kept_or_generated_def)
    show "\<forall>it' \<in> set (o_Items G').
               oi_ID it' \<in> shortid ` {..<n} \<and>
               (\<forall>d \<in> set (oi_DietaryRequirement it'). dr_ID d \<in> shortid ` {..<n}) \<and>
               (\<forall>t \<in> set (oi_Toppings it'). tp_ID t \<in> shortid ` {..<n}) \<and>
               (\<forall>a \<in> set (oi_Allergies it'). al_ID a \<in> shortid ` {..<n})"
    proof
      fix it' assume "it' \<in> set (o_Items G')"
      then obtain i where i: "i < length (o_Items G')" and e: "it' = o_Items G' ! i"
        by (auto simp: in_set_conv_nth)
      from items i have l: "i < length (o_Items G)"
        by (simp add: list_all2_conv_all_nth)
      define it where "it = o_Items G ! i"
      from l have m: "it \<in> set (o_Items G)" by (simp add: it_def)
      from items i e have k: "kept_or_generated shortid n (oi_ID it) (oi_ID it')"
        and kd: "list_all2 (\<lambda>d d'. kept_or_generated shortid n (dr_ID d) (dr_ID d'))
                (oi_DietaryRequirement it) (oi_DietaryRequirement it')"
        and kt: "list_all2 (\<lambda>t t'. kept_or_generated shortid n (tp_ID t) (tp_ID t'))
                (oi_Toppings it) (oi_Toppings it')"
        and ka: "list_all2 (\<lambda>a a'. kept_or_generated shortid n (al_ID a) (al_ID a'))
                (oi_Allergies it) (oi_Allergies it')"
        by (simp_all add: list_all2_conv_all_nth it_def)
      from N(2) m have z: "oi_ID it = []"
        and zd: "\<forall>d \<in> set (oi_DietaryRequirement it). dr_ID d = []"
        and zt: "\<forall>t \<in> set (oi_Toppings it). tp_ID t = []"
        and za: "\<forall>a \<in> set (oi_Allergies it). al_ID a = []"
        by simp_all
      from k z have "oi_ID it' \<in> shortid ` {..<n}" by (simp add: kept_or_generated_def)
      with all_generated [OF kd zd] all_generated [OF kt zt] all_generated [OF ka za]
      show "oi_ID it' \<in> shortid ` {..<n} \<and>
               (\<forall>d \<in> set (oi_DietaryRequirement it'). dr_ID d \<in> shortid ` {..<n}) \<and>
               (\<forall>t \<in> set (oi_Toppings it'). tp_ID t \<in> shortid ` {..<n}) \<and>
               (\<forall>a \<in> set (oi_Allergies it'). al_ID a \<in> shortid ` {..<n})"
        by simp
    qed
  qed
  from F(6) items built show ?thesis by blast
qed

theorem identifiers_kept_or_generated_witness:
  "(\<exists>db' G'. CreateOrder sample_id 7 empty_DB preset_item_order = Inr (db', G') \<and>
      o_ID G' \<in> sample_id ` {..<snd (assign_ids sample_id 7 preset_item_order)} \<and>
      map oi_ID (o_Items G') = [''def'']) \<and>
   (\<exists>db' G'. build_order margherita_form = Inr margherita_order \<and>
      CreateOrder sample_id 7 stocked_DB margherita_order = Inr (db', G') \<and>
      o_ID G' \<in> sample_id ` {..<snd (assign_ids sample_id 7 margherita_order)} \<and>
      o_ID G' = ''id'' \<and> map oi_ID (o_Items G') = [''idx''])"
proof
  have "\<not> isl (CreateOrder sample_id 7 empty_DB preset_item_order)"
    by code_simp
  then obtain db' G' where
    c: "CreateOrder sample_id 7 empty_DB preset_item_order = Inr (db', G')"
    by (cases "CreateOrder sample_id 7 empty_DB preset_item_order") auto
  define n where "n = snd (assign_ids sample_id 7 preset_item_order)"
  note T = identifiers_kept_or_generated [OF c n_def, of margherita_form]
  from T [THEN conjunct1] T [THEN conjunct2, THEN conjunct1]
  have "o_ID G' \<in> sample_id ` {..<n}" and "map oi_ID (o_Items G') = [''def'']"
    by (auto simp: kept_or_generated_def preset_item_order_def ada_order_def
        margherita_item_def list_all2_Cons1)
  with c show "\<exists>db' G'. CreateOrder sample_id 7 empty_DB preset_item_order = Inr (db', G') \<and>
      o_ID G' \<in> sample_id ` {..<snd (assign_ids sample_id 7 preset_item_order)} \<and>
      map oi_ID (o_Items G') = [''def'']"
    by (simp add: n_def)
next
  have "\<not> isl (CreateOrder sample_id 7 stocked_DB margherita_order)"
    by code_simp
  then obtain db' G' where
    c: "CreateOrder sample_id 7 stocked_DB margherita_order = Inr (db', G')"
    by (cases "CreateOrder sample_id 7 stocked_DB margherita_order") auto
  have "o_ID (snd (projr (CreateOrder sample_id 7 stocked_DB margherita_order))) = ''id''"
    and "map oi_ID (o_Items (snd (projr (CreateOrder sample_id 7 stocked_DB margherita_order)))) =
      [''idx'']"
    by code_simp+
  with c have v: "o_ID G' = ''id''" "map oi_ID (o_Items G') = [''idx'']" by simp_all
  from identifiers_kept_or_generated [OF c refl, of margherita_form] margherita_build
  have "o_ID G' \<in> sample_id ` {..<snd (assign_ids sample_id 7 margherita_order)}"
    by simp
  with c v margherita_build
  show "\<exists>db' G'. build_order margherita_form = Inr margherita_order \<and>
      CreateOrder sample_id 7 stocked_DB margherita_order = Inr (db', G') \<and>
      o_ID G' \<in> sample_id ` {..<snd (assign_ids sample_id 7 margherita_order)} \<and>
      o_ID G' = ''id'' \<and> map oi_ID (o_Items G') = [''idx'']"
    by simp
qed

text \<open>
  C6 as stated fails: an order submitted with the identifier \<open>abc\<close> and an item with the
  identifier \<open>def\<close> is stored under these identifiers.
\<close>

theorem caller_identifier_kept:
  "CreateOrder sample_id 7 empty_DB preset_order = Inr (preset_DB, preset_stored) \<and>
   o_ID preset_order = ''abc'' \<and> o_ID preset_stored = ''abc'' \<and>
   oi_ID (o_Items preset_order ! 0) = ''def'' \<and> oi_ID (o_Items preset_stored ! 0) = ''def''"
proof -
  have "CreateOrder sample_id 7 empty_DB preset_order = Inr (preset_DB, preset_stored)"
    by code_simp
  then show ?thesis
    by (simp add: preset_order_def preset_stored_def ada_order_def)
qed

text \<open>
  C8, initial status. When the submission handler answers with the redirect, the order
  it built has status \<open>Order Placed\<close>, the first entry of the status vocabulary, and
  reading the order back under the identifier of the redirect gives that status.
\<close>

theorem initial_status:
  assumes "HandleNewOrder ShouldBind shortid now db form = (db', Redirect code location)"
  shows "\<exists>ord ord'. build_order form = Inr ord \<and> o_Status ord = ''Order Placed'' \<and>
           CreateOrder shortid now db ord = Inr (db', ord') \<and>
           location = ''/customer/'' @ o_ID ord' \<and>
           o_Status (fst (GetOrder db' (o_ID ord'))) = ''Order Placed'' \<and>
           snd (GetOrder db' (o_ID ord')) = None \<and>
           OrderStatuses =
             [''Order Placed'', ''Preparing'', ''Cooking'', ''Quality Check'', ''Ready'']"
proof -
  from assms obtain ord ord' where
    b: "build_order form = Inr ord" and c: "CreateOrder shortid now db ord = Inr (db', ord')"
    and l: "location = ''/customer/'' @ o_ID ord'"
    by (auto simp: HandleNewOrder_def split: if_splits sum.splits prod.splits)
  from b have s: "o_Status ord = ''Order Placed''"
    by (auto simp: build_order_def OrderStatusPlaced_def split: sum.splits)
  note C = CreateOrder_Inr [OF c]
  from assign_ids_fact(1) [OF C(1)] s have s': "o_Status ord' = ''Order Placed''" by simp
  from GetOrder_header [OF C(2)] obtain its where
    g: "GetOrder db' (o_ID ord') = (ord'\<lparr>o_Items := its\<rparr>, None)" by blast
  have v: "OrderStatuses =
             [''Order Placed'', ''Preparing'', ''Cooking'', ''Quality Check'', ''Ready'']"
    by (simp add: OrderStatuses_def OrderStatusPlaced_def OrderStatusPreparing_def
        OrderStatusCooking_def OrderStatusQualityCheck_def OrderStatusReady_def)
  from b s c l g s' v show ?thesis by simp
qed

theorem initial_status_witness:
  "snd (HandleNewOrder (\<lambda>form. True) sample_id 7 stocked_DB margherita_form) =
     Redirect 303 ''/customer/id'' \<and>
   o_Status
     (fst (GetOrder (fst (HandleNewOrder (\<lambda>form. True) sample_id 7 stocked_DB margherita_form))
        ''id'')) = ''Order Placed''"
proof -
  have s: "snd (HandleNewOrder (\<lambda>form. True) sample_id 7 stocked_DB margherita_form) =
     Redirect 303 ''/customer/id''"
    by code_simp
  then obtain db' where
    h: "HandleNewOrder (\<lambda>form. True) sample_id 7 stocked_DB margherita_form =
          (db', Redirect 303 ''/customer/id'')"
    by (cases "HandleNewOrder (\<lambda>form. True) sample_id 7 stocked_DB margherita_form") simp
  from initial_status [OF h] s h show ?thesis by auto
qed

text \<open>
  C5, not found. When no row of \<open>orders\<close> has the identifier, \<open>GetOrder\<close> returns the
  error \<open>ErrRecordNotFound\<close>, a value of its own among the errors of the store, next to
  the zero-valued order; \<open>serveCustomer\<close> answers 404 and renders no order.
\<close>

theorem not_found_signalled:
  assumes "\<forall>row \<in> set (orders db). o_ID row \<noteq> ident"
  shows "GetOrder db ident = (zero_Order, Some ErrRecordNotFound) \<and>
         serveCustomer db ident =
           (if ident = [] then [String 400 ''Order ID is required''] else []) @
           [String 404 ''Order Not Found'']"
proof -
  from assms have "find (\<lambda>row. o_ID row = ident) (orders db) = None"
    by (simp add: find_None_iff)
  then have "GetOrder db ident = (zero_Order, Some ErrRecordNotFound)"
    by (simp add: GetOrder_def)
  then show ?thesis by (simp add: serveCustomer_def)
qed

theorem not_found_signalled_witness:
  "map o_ID (orders stocked_DB) = [''o1''] \<and>
   GetOrder stocked_DB ''zz'' = (zero_Order, Some ErrRecordNotFound) \<and>
   serveCustomer stocked_DB ''zz'' = [String 404 ''Order Not Found'']"
proof -
  have a: "\<forall>row \<in> set (orders stocked_DB). o_ID row \<noteq> ''zz''"
    by (simp add: stocked_DB_def)
  from not_found_signalled [OF a] show ?thesis by (simp add: stocked_DB_def)
qed

end
